theory Spec2Isabelle
  imports Main
begin

section \<open>The custom transfer adapter of transfer/custom.go\<close>

text \<open>
  The adapter delegates the transfer of an object to an external process and talks to
  it over the process's standard input and output, one JSON record per line. The
  development embeds the adapter's methods as HOL functions. What the methods do to
  the outside world is made explicit: the state of the external process is passed in
  and returned, callbacks are recorded in a list, a returned error is a value and a
  run-time panic is a result of its own. The integers of the code (\<open>int\<close>,
  \<open>int64\<close>) are stored, passed on and compared with 0, never computed with: they
  are integers without a bound here.
\<close>

subsection \<open>Collaborator types\<close>

text \<open>
  Modelled from the spec: the declarations of \<open>Direction\<close>, \<open>api.ObjectError\<close>,
  \<open>api.LinkRelation\<close>, \<open>api.ObjectResource\<close> and \<open>Transfer\<close> are outside
  transfer/custom.go. The spec gives a direction as Upload xor Download, an embedded
  error as an error string, the resource action as pre-resolved metadata, and the
  transfer unit as an oid, a byte size and its actions. Only the fields custom.go reads
  are kept: \<open>t.Name\<close>, \<open>t.Object\<close>, \<open>Object.Oid\<close>, \<open>Object.Size\<close> and
  \<open>Object.Rel(name)\<close>.
\<close>

datatype Direction = Upload | Download

type_synonym ObjectError = string

type_synonym LinkRelation = string

record ObjectResource =
  Oid :: string
  Size :: int
  Actions :: "(string \<times> LinkRelation) list"

definition Rel :: "ObjectResource \<Rightarrow> string \<Rightarrow> LinkRelation option" where
  "Rel obj nm = map_of (Actions obj) nm"

record Transfer =
  Name :: string
  Object :: ObjectResource

subsection \<open>The adapter and the protocol messages\<close>

text \<open>
  \<open>customAdapter\<close> embeds \<open>*adapterBase\<close>; \<open>name\<close> and \<open>direction\<close> are the
  two fields of the base that custom.go reads.
\<close>

record customAdapter =
  name :: string
  direction :: Direction
  path :: string
  args :: string
  concurrent :: bool
  originalConcurrency :: int

record customAdapterInitRequest =
  Operation :: string
  Concurrent :: bool
  ConcurrentTransfers :: int

record customAdapterInitResponse =
  Error_init :: "ObjectError option"

record customAdapterUploadRequest =
  Oid_upload :: string
  Size_upload :: int
  Path_upload :: string
  Action_upload :: LinkRelation

record customAdapterDownloadRequest =
  Oid_download :: string
  Size_download :: int
  Action_download :: LinkRelation

record customAdapterTransferResponse =
  Oid_transfer :: string
  Path_transfer :: string
  Error_transfer :: "ObjectError option"

record customAdapterTerminateRequest =
  Complete :: bool

record customAdapterProgressResponse =
  Oid_progress :: string
  BytesSoFar :: int
  BytesSinceLast :: int

text \<open>
  \<open>sendMessage\<close> takes its request as an \<open>interface{}\<close>; the adapter passes pointers
  to the four request structs.
\<close>

datatype request =
    InitRequest customAdapterInitRequest
  | UploadRequest customAdapterUploadRequest
  | DownloadRequest customAdapterDownloadRequest
  | TerminateRequest customAdapterTerminateRequest

text \<open>
  The candidates of \<open>readResponse\<close> are \<open>interface{}\<close> values. The adapter builds them
  as pointers to response structs (\<open>&customAdapterProgressResponse{}\<close>); the pointee is
  kept inside the constructor, since no other reference to it exists. The last two
  constructors are interface values that hold a struct by value: they are the dynamic
  types the type assertions of \<open>DoTransfer\<close> ask for.
\<close>

datatype response =
    PtrInitResponse customAdapterInitResponse
  | PtrProgressResponse customAdapterProgressResponse
  | PtrTransferResponse customAdapterTransferResponse
  | ProgressResponse customAdapterProgressResponse
  | TransferResponse customAdapterTransferResponse

datatype error =
    EOF
  | IOError string
  | InvalidUnmarshalError
  | StdoutPipeFailed string error
  | StdinPipeFailed string error
  | StartFailed string error
  | NoMatchingResponse string
  | NotInitialized string
  | WrongContextType string
  | ObjectNotFound
  | UnexpectedOid string string
  | TransferError string ObjectError

text \<open>
  \<open>EOF\<close> is \<open>io.EOF\<close>; \<open>IOError\<close> stands for any error value a pipe, the process,
  the JSON encoder or the verification call reports; \<open>InvalidUnmarshalError\<close> is what
  \<open>json.Unmarshal\<close> returns for a target that is not a pointer. The other constructors
  are the errors custom.go builds with \<open>fmt.Errorf\<close> and \<open>errors.New\<close>, with the
  arguments of the format string.
\<close>

subsection \<open>The external process\<close>

text \<open>
  A \<open>customAdapterWorkerContext\<close> holds four handles on one external process (\<open>cmd\<close>,
  \<open>stdout\<close>, \<open>bufferedOut\<close>, \<open>stdin\<close>). The record \<open>process\<close> is what stands
  behind them. The first eight fields say how the process behaves: the errors, if any,
  of \<open>cmd.StdoutPipe\<close>, \<open>cmd.StdinPipe\<close>, \<open>cmd.Start\<close>, \<open>stdin.Write\<close>,
  \<open>stdin.Close\<close>, \<open>stdout.Close\<close>, \<open>cmd.Wait\<close> and \<open>cmd.Process.Kill\<close>.
  \<open>bufferedOut\<close> is what the process writes to its standard output and the reader of
  that name has not consumed yet; the process is taken to close its output after these
  bytes (a process that stalls and blocks the reader for ever is not modelled).
  \<open>syscalls\<close> is the history of the operations performed on the process, oldest first.
\<close>

datatype syscall =
    Start
  | Write string
  | WriteFailed string
  | CloseStdin
  | CloseStdout
  | Wait
  | Kill

record process =
  stdoutPipeErr :: "error option"
  stdinPipeErr :: "error option"
  startErr :: "error option"
  writeErr :: "error option"
  stdinCloseErr :: "error option"
  stdoutCloseErr :: "error option"
  waitErr :: "error option"
  killErr :: "error option"
  bufferedOut :: string
  syscalls :: "syscall list"

text \<open>
  The context a worker gets from \<open>WorkerStarting\<close> is an \<open>interface{}\<close>: nil, a
  \<open>*customAdapterWorkerContext\<close> (the handle on the process), or a value of any other
  dynamic type.
\<close>

datatype worker_context = NilContext | PtrWorkerContext | ForeignContext

subsection \<open>Library and collaborator functions\<close>

text \<open>
  Functions of other packages that custom.go calls are parameters of the model:
  \<open>json.Marshal\<close>; \<open>json.Unmarshal\<close> into each of the three response structs (it
  gets the struct as it stands and returns it as decoded, with nil or an error);
  \<open>subprocess.ExecCommand\<close>; \<open>localstorage.Objects().ObjectPath\<close>; and
  \<open>api.VerifyUpload\<close>.
\<close>

record externals =
  Marshal :: "request \<Rightarrow> error + string"
  UnmarshalInitResponse ::
    "string \<Rightarrow> customAdapterInitResponse \<Rightarrow> customAdapterInitResponse \<times> error option"
  UnmarshalProgressResponse ::
    "string \<Rightarrow> customAdapterProgressResponse \<Rightarrow> customAdapterProgressResponse \<times> error option"
  UnmarshalTransferResponse ::
    "string \<Rightarrow> customAdapterTransferResponse \<Rightarrow> customAdapterTransferResponse \<times> error option"
  ExecCommand :: "string \<Rightarrow> string \<Rightarrow> process"
  ObjectPath :: "string \<Rightarrow> string"
  VerifyUpload :: "ObjectResource \<Rightarrow> error option"

text \<open>
  \<open>json.Unmarshal(line, resp)\<close> on an \<open>interface{}\<close>: it decodes into the struct a
  pointer leads to, and refuses a target that is not a pointer.
\<close>

fun Unmarshal :: "externals \<Rightarrow> string \<Rightarrow> response \<Rightarrow> response \<times> error option" where
  "Unmarshal E line (PtrInitResponse r) =
     (case UnmarshalInitResponse E line r of (r', err) \<Rightarrow> (PtrInitResponse r', err))"
| "Unmarshal E line (PtrProgressResponse r) =
     (case UnmarshalProgressResponse E line r of (r', err) \<Rightarrow> (PtrProgressResponse r', err))"
| "Unmarshal E line (PtrTransferResponse r) =
     (case UnmarshalTransferResponse E line r of (r', err) \<Rightarrow> (PtrTransferResponse r', err))"
| "Unmarshal E line (ProgressResponse r) = (ProgressResponse r, Some InvalidUnmarshalError)"
| "Unmarshal E line (TransferResponse r) = (TransferResponse r, Some InvalidUnmarshalError)"

subsection \<open>Begin and the constructor\<close>

text \<open>
  \<open>adapterBase.Begin\<close>, the generic worker pool, is outside the sources: it is the
  parameter \<open>adapterBase_Begin\<close>, called on the adapter as \<open>Begin\<close> has left it and
  with the worker count \<open>Begin\<close> hands over (the progress callback and the completion
  channel are passed through unchanged and left out).
\<close>

definition Begin :: "(customAdapter \<Rightarrow> int \<Rightarrow> 'r) \<Rightarrow> customAdapter \<Rightarrow> int \<Rightarrow> 'r \<times> customAdapter" where
  "Begin adapterBase_Begin a maxConcurrency =
     (let useConcurrency = (if \<not> concurrent a then 1 else maxConcurrency);
          a' = a\<lparr>originalConcurrency := maxConcurrency\<rparr>
      in (adapterBase_Begin a' useConcurrency, a'))"

text \<open>
  Modelled from the spec: \<open>newAdapterBase(name, dir, nil)\<close> is outside the sources;
  the adapter it returns is bound to the name and the direction it was given. The other
  fields are those of the composite literal in \<open>newCustomAdapter\<close>.
\<close>

definition newCustomAdapter :: "string \<Rightarrow> Direction \<Rightarrow> string \<Rightarrow> string \<Rightarrow> bool \<Rightarrow> customAdapter" where
  "newCustomAdapter nm dir pth ags conc =
     \<lparr>name = nm, direction = dir, path = pth, args = ags, concurrent = conc,
      originalConcurrency = 3\<rparr>"

subsection \<open>Message exchange\<close>

abbreviation newline :: char where
  "newline \<equiv> CHR 0x0A"

text \<open>
  \<open>ctx.stdin.Write(b)\<close>: the write fails or succeeds as the process has it; the
  history records it either way.
\<close>

definition stdin_Write :: "string \<Rightarrow> process \<Rightarrow> error option \<times> process" where
  "stdin_Write b p =
     (case writeErr p of
        Some err \<Rightarrow> (Some err, p\<lparr>syscalls := syscalls p @ [WriteFailed b]\<rparr>)
      | None \<Rightarrow> (None, p\<lparr>syscalls := syscalls p @ [Write b]\<rparr>))"

definition sendMessage :: "externals \<Rightarrow> request \<Rightarrow> process \<Rightarrow> error option \<times> process" where
  "sendMessage E req p =
     (case Marshal E req of
        Inl err \<Rightarrow> (Some err, p)
      | Inr b \<Rightarrow>
          (case stdin_Write (b @ [newline]) p of
             (Some err, p') \<Rightarrow> (Some err, p')
           | (None, p') \<Rightarrow> (None, p')))"

text \<open>
  \<open>bufferedOut.ReadString(delim)\<close> returns the bytes up to and including the first
  \<open>delim\<close>; when the output ends before one, it consumes what is left and returns
  \<open>io.EOF\<close>.
\<close>

definition ReadString :: "char \<Rightarrow> process \<Rightarrow> (string \<times> error option) \<times> process" where
  "ReadString delim p =
     (if delim \<in> set (bufferedOut p)
      then ((takeWhile (\<lambda>c. c \<noteq> delim) (bufferedOut p) @ [delim], None),
            p\<lparr>bufferedOut := tl (dropWhile (\<lambda>c. c \<noteq> delim) (bufferedOut p))\<rparr>)
      else ((bufferedOut p, Some EOF), p\<lparr>bufferedOut := []\<rparr>))"

text \<open>
  The \<open>for i, resp := range possResps\<close> loop of \<open>readResponse\<close>, from index \<open>i\<close> on:
  the index of the first candidate that \<open>unmarshal\<close> decodes without error, if there
  is one, and the candidates as the decoding attempts have left them.
\<close>

fun firstUnmarshalled ::
  "(string \<Rightarrow> 'v \<Rightarrow> 'v \<times> error option) \<Rightarrow> string \<Rightarrow> nat \<Rightarrow> 'v list \<Rightarrow> nat option \<times> 'v list" where
  "firstUnmarshalled unmarshal line i [] = (None, [])"
| "firstUnmarshalled unmarshal line i (resp # rest) =
     (case unmarshal line resp of
        (resp', None) \<Rightarrow> (Some i, resp' # rest)
      | (resp', Some err) \<Rightarrow>
          (case firstUnmarshalled unmarshal line (Suc i) rest of
             (found, rest') \<Rightarrow> (found, resp' # rest')))"

definition readResponse ::
  "(string \<Rightarrow> 'v \<Rightarrow> 'v \<times> error option) \<Rightarrow> 'v list \<Rightarrow> process
     \<Rightarrow> (nat \<times> error option) \<times> 'v list \<times> process" where
  "readResponse unmarshal possResps p =
     (case ReadString newline p of
        ((line, Some err), p') \<Rightarrow> ((0, Some err), possResps, p')
      | ((line, None), p') \<Rightarrow>
          (case firstUnmarshalled unmarshal line 0 possResps of
             (Some i, possResps') \<Rightarrow> ((i, None), possResps', p')
           | (None, possResps') \<Rightarrow> ((0, Some (NoMatchingResponse line)), possResps', p')))"

text \<open>
  \<open>exchangeMessage\<close>: \<open>resp\<close> is \<open>None\<close> for a nil \<open>resp\<close>; the response is returned
  as the exchange has left it.
\<close>

definition exchangeMessage ::
  "externals \<Rightarrow> request \<Rightarrow> response option \<Rightarrow> process \<Rightarrow> error option \<times> response option \<times> process" where
  "exchangeMessage E req resp p =
     (case sendMessage E req p of
        (Some err, p') \<Rightarrow> (Some err, resp, p')
      | (None, p') \<Rightarrow>
          (case resp of
             Some r \<Rightarrow>
               (case readResponse (Unmarshal E) [r] p' of
                  ((i, err), possResps', p'') \<Rightarrow> (err, Some (possResps' ! 0), p''))
           | None \<Rightarrow> (None, None, p')))"

subsection \<open>The life of a worker process\<close>

text \<open>
  \<open>ctx.stdin.Close()\<close>, \<open>ctx.stdout.Close()\<close>, \<open>ctx.cmd.Wait()\<close> and
  \<open>ctx.cmd.Process.Kill()\<close>: each returns its error, or nil, and enters the history.
\<close>

definition stdin_Close :: "process \<Rightarrow> error option \<times> process" where
  "stdin_Close p = (stdinCloseErr p, p\<lparr>syscalls := syscalls p @ [CloseStdin]\<rparr>)"

definition stdout_Close :: "process \<Rightarrow> error option \<times> process" where
  "stdout_Close p = (stdoutCloseErr p, p\<lparr>syscalls := syscalls p @ [CloseStdout]\<rparr>)"

definition cmd_Wait :: "process \<Rightarrow> error option \<times> process" where
  "cmd_Wait p = (waitErr p, p\<lparr>syscalls := syscalls p @ [Wait]\<rparr>)"

definition Process_Kill :: "process \<Rightarrow> error option \<times> process" where
  "Process_Kill p = (killErr p, p\<lparr>syscalls := syscalls p @ [Kill]\<rparr>)"

text \<open>
  \<open>shutdownWorkerProcess\<close> and \<open>abortWorkerProcess\<close> call \<open>ctx.stdin.Close()\<close>,
  \<open>ctx.stdout.Close()\<close> and \<open>ctx.cmd.Process.Kill()\<close> as statements: what they
  return is discarded.
\<close>

definition shutdownWorkerProcess :: "externals \<Rightarrow> process \<Rightarrow> error option \<times> process" where
  "shutdownWorkerProcess E p =
     (let termReq = TerminateRequest \<lparr>Complete = True\<rparr>
      in case exchangeMessage E termReq None p of
           (Some err, resp, p') \<Rightarrow> (Some err, p')
         | (None, resp, p') \<Rightarrow>
             (case stdin_Close p' of
                (discarded, p1) \<Rightarrow>
                  (case stdout_Close p1 of
                     (discarded, p2) \<Rightarrow> cmd_Wait p2)))"

definition abortWorkerProcess :: "process \<Rightarrow> process" where
  "abortWorkerProcess p =
     (case stdin_Close p of
        (discarded, p1) \<Rightarrow>
          (case stdout_Close p1 of
             (discarded, p2) \<Rightarrow>
               (case Process_Kill p2 of
                  (discarded, p3) \<Rightarrow> p3)))"

text \<open>
  \<open>WorkerStarting\<close> returns the context and the error of the Go method, and the
  process it has launched in the state the method leaves it.
\<close>

definition WorkerStarting ::
  "externals \<Rightarrow> customAdapter \<Rightarrow> int \<Rightarrow> (worker_context \<times> error option) \<times> process" where
  "WorkerStarting E a workerNum =
     (let cmd = ExecCommand E (path a) (args a)
      in case stdoutPipeErr cmd of
           Some err \<Rightarrow> ((NilContext, Some (StdoutPipeFailed (path a) err)), cmd)
         | None \<Rightarrow>
        (case stdinPipeErr cmd of
           Some err \<Rightarrow> ((NilContext, Some (StdinPipeFailed (path a) err)), cmd)
         | None \<Rightarrow>
        (case startErr cmd of
           Some err \<Rightarrow> ((NilContext, Some (StartFailed (path a) err)), cmd)
         | None \<Rightarrow>
          (let ctx = cmd\<lparr>syscalls := syscalls cmd @ [Start]\<rparr>;
               op = (if direction a = Download then ''download'' else ''upload'');
               initReq = \<lparr>Operation = op, Concurrent = concurrent a,
                          ConcurrentTransfers = originalConcurrency a\<rparr>;
               initResp = \<lparr>Error_init = None\<rparr>
           in case exchangeMessage E (InitRequest initReq) (Some (PtrInitResponse initResp)) ctx of
                (Some err, resp, ctx') \<Rightarrow> ((NilContext, Some err), abortWorkerProcess ctx')
              | (None, resp, ctx') \<Rightarrow> ((PtrWorkerContext, None), ctx')))))"

definition WorkerEnding :: "externals \<Rightarrow> customAdapter \<Rightarrow> int \<Rightarrow> worker_context \<Rightarrow> process \<Rightarrow> process" where
  "WorkerEnding E a workerNum ctx p =
     (case ctx of
        PtrWorkerContext \<Rightarrow>
          (case shutdownWorkerProcess E p of
             (Some err, p') \<Rightarrow> abortWorkerProcess p'
           | (None, p') \<Rightarrow> p')
      | _ \<Rightarrow> p)"

subsection \<open>One transfer\<close>

text \<open>
  The collaborators \<open>DoTransfer\<close> calls are recorded, in the order of the calls: the
  progress callback \<open>cb(t.Name, t.Object.Size, bytesSoFar, bytesSinceLast)\<close>, the
  auth-success callback \<open>authOkFunc()\<close>, and \<open>api.VerifyUpload(t.Object)\<close>.
\<close>

datatype callback =
    ProgressCallback string int int int
  | AuthOk
  | VerifyUploadCall ObjectResource

text \<open>
  The single-value type assertions \<open>x.(customAdapterProgressResponse)\<close> and
  \<open>x.(customAdapterTransferResponse)\<close>: each yields the struct when the dynamic type of
  \<open>x\<close> is that struct type, and panics (\<open>None\<close>) for every other dynamic type, a
  pointer to the struct included.
\<close>

fun assert_customAdapterProgressResponse :: "response \<Rightarrow> customAdapterProgressResponse option" where
  "assert_customAdapterProgressResponse (ProgressResponse r) = Some r"
| "assert_customAdapterProgressResponse (PtrInitResponse r) = None"
| "assert_customAdapterProgressResponse (PtrProgressResponse r) = None"
| "assert_customAdapterProgressResponse (PtrTransferResponse r) = None"
| "assert_customAdapterProgressResponse (TransferResponse r) = None"

fun assert_customAdapterTransferResponse :: "response \<Rightarrow> customAdapterTransferResponse option" where
  "assert_customAdapterTransferResponse (TransferResponse r) = Some r"
| "assert_customAdapterTransferResponse (PtrInitResponse r) = None"
| "assert_customAdapterTransferResponse (PtrProgressResponse r) = None"
| "assert_customAdapterTransferResponse (PtrTransferResponse r) = None"
| "assert_customAdapterTransferResponse (ProgressResponse r) = None"

text \<open>
  \<open>if wasAuthOk && authOkFunc != nil && !authCalled { authOkFunc(); authCalled = true }\<close>;
  \<open>authOkFunc\<close> (and \<open>cb\<close> below) is \<open>True\<close> for a callback that is not nil.
\<close>

definition callAuthOk :: "bool \<Rightarrow> bool \<Rightarrow> bool \<Rightarrow> callback list \<Rightarrow> bool \<times> callback list" where
  "callAuthOk wasAuthOk authOkFunc authCalled calls =
     (if wasAuthOk \<and> authOkFunc \<and> \<not> authCalled then (True, calls @ [AuthOk])
      else (authCalled, calls))"

text \<open>
  The loop \<open>for !complete\<close> leaves in one of three ways: \<open>complete\<close> has become
  true, the method returns an error from inside the loop, or a type assertion panics.
\<close>

datatype loop_exit = LoopDone | LoopReturned error | LoopPanicked

lemma ReadString_consumes:
  "ReadString delim p = ((line, None), p') \<Longrightarrow> length (bufferedOut p') < length (bufferedOut p)"
proof -
  assume r: "ReadString delim p = ((line, None), p')"
  then have m: "delim \<in> set (bufferedOut p)"
    by (auto simp: ReadString_def split: if_splits)
  with r have p': "bufferedOut p' = tl (dropWhile (\<lambda>c. c \<noteq> delim) (bufferedOut p))"
    by (auto simp: ReadString_def)
  from m have ne: "dropWhile (\<lambda>c. c \<noteq> delim) (bufferedOut p) \<noteq> []"
    by auto
  then have "length (tl (dropWhile (\<lambda>c. c \<noteq> delim) (bufferedOut p)))
      < length (dropWhile (\<lambda>c. c \<noteq> delim) (bufferedOut p))"
    by (cases "dropWhile (\<lambda>c. c \<noteq> delim) (bufferedOut p)") auto
  also have "\<dots> \<le> length (bufferedOut p)"
    by (rule length_dropWhile_le)
  finally show ?thesis using p' by simp
qed

lemma readResponse_consumes:
  "readResponse unmarshal possResps p = ((i, None), possResps', p')
     \<Longrightarrow> length (bufferedOut p') < length (bufferedOut p)"
  by (auto simp: readResponse_def split: prod.splits option.splits dest: ReadString_consumes)

function transferLoop ::
  "externals \<Rightarrow> Transfer \<Rightarrow> bool \<Rightarrow> bool \<Rightarrow> response list \<Rightarrow> bool \<Rightarrow> callback list \<Rightarrow> process
     \<Rightarrow> loop_exit \<times> callback list \<times> process" where
  "transferLoop E t cb authOkFunc possResps authCalled calls p =
     (case readResponse (Unmarshal E) possResps p of
        ((respIdx, Some err), possResps', p') \<Rightarrow> (LoopReturned err, calls, p')
      | ((respIdx, None), possResps', p') \<Rightarrow>
          (if respIdx = 0 then
             (case assert_customAdapterProgressResponse (possResps' ! 0) of
                None \<Rightarrow> (LoopPanicked, calls, p')
              | Some prog \<Rightarrow>
                  (if Oid_progress prog \<noteq> Oid (Object t)
                   then (LoopReturned (UnexpectedOid (Oid_progress prog) (Oid (Object t))), calls, p')
                   else
                     (let calls1 =
                            (if cb
                             then calls @ [ProgressCallback (Name t) (Size (Object t))
                                             (BytesSoFar prog) (BytesSinceLast prog)]
                             else calls);
                          wasAuthOk = (BytesSoFar prog > 0)
                      in case callAuthOk wasAuthOk authOkFunc authCalled calls1 of
                           (authCalled', calls2) \<Rightarrow>
                             transferLoop E t cb authOkFunc possResps' authCalled' calls2 p')))
           else if respIdx = 1 then
             (case assert_customAdapterTransferResponse (possResps' ! 0) of
                None \<Rightarrow> (LoopPanicked, calls, p')
              | Some comp_resp \<Rightarrow>
                  (if Oid_transfer comp_resp \<noteq> Oid (Object t)
                   then (LoopReturned (UnexpectedOid (Oid_transfer comp_resp) (Oid (Object t))), calls, p')
                   else
                     (case Error_transfer comp_resp of
                        Some e \<Rightarrow> (LoopReturned (TransferError (Oid (Object t)) e), calls, p')
                      | None \<Rightarrow>
                          (case callAuthOk True authOkFunc authCalled calls of
                             (authCalled', calls2) \<Rightarrow> (LoopDone, calls2, p')))))
           else
             (case callAuthOk False authOkFunc authCalled calls of
                (authCalled', calls2) \<Rightarrow>
                  transferLoop E t cb authOkFunc possResps' authCalled' calls2 p')))"
  by pat_completeness auto
termination
  by (relation "measure (\<lambda>(E, t, cb, authOkFunc, possResps, authCalled, calls, p). length (bufferedOut p))")
     (auto dest: readResponse_consumes [OF sym])

text \<open>
  \<open>DoTransfer\<close> returns an error (or nil), or it panics; with either, the callbacks it
  has made and the state it leaves the process in.
\<close>

datatype outcome = Returned "error option" | Panicked

text \<open>
  The request \<open>DoTransfer\<close> builds before it sends anything: a download request or
  an upload request, after the adapter's direction, or the error \<open>Object not found on
  the server.\<close> when the object has no action of that name.
\<close>

definition transferRequest :: "externals \<Rightarrow> customAdapter \<Rightarrow> Transfer \<Rightarrow> error + request" where
  "transferRequest E a t =
     (if direction a = Download then
        (case Rel (Object t) ''download'' of
           None \<Rightarrow> Inl ObjectNotFound
         | Some rel \<Rightarrow>
             Inr (DownloadRequest \<lparr>Oid_download = Oid (Object t), Size_download = Size (Object t),
                                   Action_download = rel\<rparr>))
      else
        (case Rel (Object t) ''upload'' of
           None \<Rightarrow> Inl ObjectNotFound
         | Some rel \<Rightarrow>
             Inr (UploadRequest \<lparr>Oid_upload = Oid (Object t), Size_upload = Size (Object t),
                                 Path_upload = ObjectPath E (Oid (Object t)),
                                 Action_upload = rel\<rparr>)))"

definition DoTransfer ::
  "externals \<Rightarrow> customAdapter \<Rightarrow> worker_context \<Rightarrow> Transfer \<Rightarrow> bool \<Rightarrow> bool \<Rightarrow> process
     \<Rightarrow> outcome \<times> callback list \<times> process" where
  "DoTransfer E a ctx t cb authOkFunc p =
     (case ctx of
        NilContext \<Rightarrow> (Returned (Some (NotInitialized (name a))), [], p)
      | ForeignContext \<Rightarrow> (Returned (Some (WrongContextType (name a))), [], p)
      | PtrWorkerContext \<Rightarrow>
          (case transferRequest E a t of
             Inl err \<Rightarrow> (Returned (Some err), [], p)
           | Inr req \<Rightarrow>
               (case sendMessage E req p of
                  (Some err, p') \<Rightarrow> (Returned (Some err), [], p')
                | (None, p') \<Rightarrow>
                    (let possResps =
                           [PtrProgressResponse
                              \<lparr>Oid_progress = [], BytesSoFar = 0, BytesSinceLast = 0\<rparr>,
                            PtrTransferResponse
                              \<lparr>Oid_transfer = [], Path_transfer = [], Error_transfer = None\<rparr>]
                     in case transferLoop E t cb authOkFunc possResps False [] p' of
                          (LoopReturned err, calls, p'') \<Rightarrow> (Returned (Some err), calls, p'')
                        | (LoopPanicked, calls, p'') \<Rightarrow> (Panicked, calls, p'')
                        | (LoopDone, calls, p'') \<Rightarrow>
                            (if direction a = Upload
                             then (Returned (VerifyUpload E (Object t)),
                                   calls @ [VerifyUploadCall (Object t)], p'')
                             else (Returned None, calls, p''))))))"

subsection \<open>Test doubles\<close>

text \<open>
  The examples below run the adapter against a double of the external process and of
  \<open>encoding/json\<close>. The double knows the lines and the requests the examples use,
  and decodes each line as \<open>json.Unmarshal\<close> does for the struct in question: a
  field the line does not mention keeps its value, a field the struct does not have is
  ignored, and a value of the wrong JSON type is an error. Every other line is reported
  as invalid. The lines are: an init response without and with an embedded error, two
  progress reports for the object \<open>abc\<close> (3 MB, then 10 MB), a success completion
  for \<open>abc\<close>, a completion for another object, and a line that decodes as a
  completion but not as a progress report.
\<close>

definition initOkLine :: string where
  "initOkLine = ''{}'' @ [newline]"

definition initErrorLine :: string where
  "initErrorLine = ''{\"error\":{\"code\":1,\"message\":\"unsupported operation\"}}'' @ [newline]"

definition progressLine1 :: string where
  "progressLine1 = ''{\"oid\":\"abc\",\"bytesSoFar\":3145728,\"bytesSinceLast\":3145728}'' @ [newline]"

definition progressLine2 :: string where
  "progressLine2 = ''{\"oid\":\"abc\",\"bytesSoFar\":10485760,\"bytesSinceLast\":7340032}'' @ [newline]"

definition completionLine :: string where
  "completionLine = ''{\"oid\":\"abc\"}'' @ [newline]"

definition strayCompletionLine :: string where
  "strayCompletionLine = ''{\"oid\":\"xyz\"}'' @ [newline]"

definition terminalOnlyLine :: string where
  "terminalOnlyLine = ''{\"oid\":\"abc\",\"bytesSoFar\":\"done\"}'' @ [newline]"

definition fakeMarshal :: "request \<Rightarrow> error + string" where
  "fakeMarshal req =
     (if req = TerminateRequest \<lparr>Complete = True\<rparr>
      then Inr ''{\"complete\":true}''
      else if req = InitRequest \<lparr>Operation = ''upload'', Concurrent = False, ConcurrentTransfers = 4\<rparr>
      then Inr ''{\"operation\":\"upload\",\"concurrent\":false,\"concurrenttransfers\":4}''
      else if req = InitRequest \<lparr>Operation = ''upload'', Concurrent = False, ConcurrentTransfers = 3\<rparr>
      then Inr ''{\"operation\":\"upload\",\"concurrent\":false,\"concurrenttransfers\":3}''
      else if req = UploadRequest \<lparr>Oid_upload = ''abc'', Size_upload = 10485760,
                                     Path_upload = ''/lfs/objects/abc'',
                                     Action_upload = ''https://example.com/abc''\<rparr>
      then Inr ''{\"oid\":\"abc\",\"size\":10485760,\"path\":\"/lfs/objects/abc\",\"action\":{\"href\":\"https://example.com/abc\"}}''
      else Inl (IOError ''fakeMarshal''))"

definition fakeUnmarshalInitResponse ::
  "string \<Rightarrow> customAdapterInitResponse \<Rightarrow> customAdapterInitResponse \<times> error option" where
  "fakeUnmarshalInitResponse line r =
     (if line = initOkLine then (r, None)
      else if line = initErrorLine then (r\<lparr>Error_init := Some ''unsupported operation''\<rparr>, None)
      else (r, Some (IOError ''invalid JSON'')))"

definition fakeUnmarshalProgressResponse ::
  "string \<Rightarrow> customAdapterProgressResponse \<Rightarrow> customAdapterProgressResponse \<times> error option" where
  "fakeUnmarshalProgressResponse line r =
     (if line = progressLine1
      then (\<lparr>Oid_progress = ''abc'', BytesSoFar = 3145728, BytesSinceLast = 3145728\<rparr>, None)
      else if line = progressLine2
      then (\<lparr>Oid_progress = ''abc'', BytesSoFar = 10485760, BytesSinceLast = 7340032\<rparr>, None)
      else if line = completionLine then (r\<lparr>Oid_progress := ''abc''\<rparr>, None)
      else if line = strayCompletionLine then (r\<lparr>Oid_progress := ''xyz''\<rparr>, None)
      else if line = terminalOnlyLine
      then (r\<lparr>Oid_progress := ''abc''\<rparr>, Some (IOError ''cannot unmarshal string into bytesSoFar''))
      else (r, Some (IOError ''invalid JSON'')))"

definition fakeUnmarshalTransferResponse ::
  "string \<Rightarrow> customAdapterTransferResponse \<Rightarrow> customAdapterTransferResponse \<times> error option" where
  "fakeUnmarshalTransferResponse line r =
     (if line = progressLine1 \<or> line = progressLine2 \<or> line = completionLine \<or> line = terminalOnlyLine
      then (r\<lparr>Oid_transfer := ''abc''\<rparr>, None)
      else if line = strayCompletionLine then (r\<lparr>Oid_transfer := ''xyz''\<rparr>, None)
      else (r, Some (IOError ''invalid JSON'')))"

definition fakeProcess :: "error option \<Rightarrow> error option \<Rightarrow> string \<Rightarrow> process" where
  "fakeProcess werr xerr out =
     \<lparr>stdoutPipeErr = None, stdinPipeErr = None, startErr = None, writeErr = werr,
      stdinCloseErr = None, stdoutCloseErr = None, waitErr = xerr, killErr = None,
      bufferedOut = out, syscalls = []\<rparr>"

definition fakeExternals :: "string \<Rightarrow> externals" where
  "fakeExternals out =
     \<lparr>Marshal = fakeMarshal,
      UnmarshalInitResponse = fakeUnmarshalInitResponse,
      UnmarshalProgressResponse = fakeUnmarshalProgressResponse,
      UnmarshalTransferResponse = fakeUnmarshalTransferResponse,
      ExecCommand = (\<lambda>pth ags. fakeProcess None None out),
      ObjectPath = (\<lambda>oid. ''/lfs/objects/'' @ oid),
      VerifyUpload = (\<lambda>obj. None)\<rparr>"

definition testagent :: "Direction \<Rightarrow> bool \<Rightarrow> customAdapter" where
  "testagent dir conc = newCustomAdapter ''testagent'' dir ''agent'' [] conc"

definition abcTransfer :: Transfer where
  "abcTransfer =
     \<lparr>Name = ''big.bin'',
      Object = \<lparr>Oid = ''abc'', Size = 10485760,
                Actions = [(''upload'', ''https://example.com/abc''),
                           (''download'', ''https://example.com/abc'')]\<rparr>\<rparr>"

text \<open>
  The double of the process after the upload request for \<open>abc\<close> has been written
  to it.
\<close>

definition abcRequested :: "string \<Rightarrow> process" where
  "abcRequested out =
     (fakeProcess None None out)\<lparr>syscalls :=
        [Write (''{\"oid\":\"abc\",\"size\":10485760,\"path\":\"/lfs/objects/abc\",\"action\":{\"href\":\"https://example.com/abc\"}}'' @ [newline])]\<rparr>"

subsection \<open>The JSON encoding of the requests\<close>

text \<open>
  \<open>encoding/json\<close> is Go's standard library and is not part of the repository. To
  follow a request through \<open>sendMessage\<close> and back, this section models what
  \<open>json.Marshal\<close> writes for the four request structs, after the library's
  documentation and the \<open>json\<close> tags of custom.go: a compact object with the fields
  in the order of the struct, integers in decimal, booleans as \<open>true\<close> and
  \<open>false\<close>, and strings quoted, with the escapes of the library. A string is coerced
  to valid UTF-8 on the way: a byte that does not start a valid UTF-8 sequence is written
  as the replacement character \<open>\ufffd\<close>. The action, whose Go type is outside the
  sources, is a string in this development and is written as one.
\<close>

text \<open>
  \<open>utf8.DecodeRuneInString\<close> and \<open>utf8.EncodeRune\<close>: a rune and the number of
  bytes it takes, \<open>(RuneError, 1)\<close> for a byte that starts no valid sequence; and the
  bytes of a rune. The masks and shifts of the library are written as arithmetic on the
  byte values.
\<close>

abbreviation quote :: char where "quote \<equiv> CHR 0x22"

abbreviation backslash :: char where "backslash \<equiv> CHR 0x5C"

definition RuneError :: nat where
  "RuneError = 0xFFFD"

fun DecodeRune :: "string \<Rightarrow> nat \<times> nat" where
  "DecodeRune [] = (RuneError, 0)"
| "DecodeRune (c0 # cs) =
     (let b0 = (of_char c0 :: nat) in
      if b0 < 0x80 then (b0, 1)
      else if b0 < 0xC2 then (RuneError, 1)
      else if b0 < 0xE0 then
        (case cs of
           c1 # cs1 \<Rightarrow>
             (let b1 = (of_char c1 :: nat) in
              if 0x80 \<le> b1 \<and> b1 \<le> 0xBF
              then ((b0 - 0xC0) * 64 + (b1 - 0x80), 2)
              else (RuneError, 1))
         | [] \<Rightarrow> (RuneError, 1))
      else if b0 < 0xF0 then
        (case cs of
           c1 # c2 # cs2 \<Rightarrow>
             (let b1 = (of_char c1 :: nat); b2 = (of_char c2 :: nat) in
              if (if b0 = 0xE0 then 0xA0 else 0x80) \<le> b1
                 \<and> b1 \<le> (if b0 = 0xED then 0x9F else 0xBF)
                 \<and> 0x80 \<le> b2 \<and> b2 \<le> 0xBF
              then ((b0 - 0xE0) * 4096 + (b1 - 0x80) * 64 + (b2 - 0x80), 3)
              else (RuneError, 1))
         | _ \<Rightarrow> (RuneError, 1))
      else if b0 < 0xF5 then
        (case cs of
           c1 # c2 # c3 # cs3 \<Rightarrow>
             (let b1 = (of_char c1 :: nat); b2 = (of_char c2 :: nat); b3 = (of_char c3 :: nat) in
              if (if b0 = 0xF0 then 0x90 else 0x80) \<le> b1
                 \<and> b1 \<le> (if b0 = 0xF4 then 0x8F else 0xBF)
                 \<and> 0x80 \<le> b2 \<and> b2 \<le> 0xBF \<and> 0x80 \<le> b3 \<and> b3 \<le> 0xBF
              then ((b0 - 0xF0) * 262144 + (b1 - 0x80) * 4096 + (b2 - 0x80) * 64 + (b3 - 0x80), 4)
              else (RuneError, 1))
         | _ \<Rightarrow> (RuneError, 1))
      else (RuneError, 1))"

definition EncodeRune :: "nat \<Rightarrow> string" where
  "EncodeRune r =
     (if r < 0x80 then [char_of r]
      else if r < 0x800 then [char_of (0xC0 + r div 64), char_of (0x80 + r mod 64)]
      else if (0xD800 \<le> r \<and> r < 0xE000) \<or> 0x10FFFF < r
      then [CHR 0xEF, CHR 0xBF, CHR 0xBD]
      else if r < 0x10000
      then [char_of (0xE0 + r div 4096), char_of (0x80 + (r div 64) mod 64),
            char_of (0x80 + r mod 64)]
      else [char_of (0xF0 + r div 262144), char_of (0x80 + (r div 4096) mod 64),
            char_of (0x80 + (r div 64) mod 64), char_of (0x80 + r mod 64)])"

text \<open>
  The string encoder of \<open>json.Marshal\<close>. An ASCII character is written as it is,
  except for the quote, the backslash, the control characters and \<open><\<close>, \<open>>\<close>,
  \<open>&\<close>, which are escaped. Other bytes are decoded as UTF-8: an invalid byte becomes
  \<open>\ufffd\<close>, the line separators U+2028 and U+2029 are escaped, and every other
  rune is copied.
\<close>

definition hex :: "nat \<Rightarrow> char" where
  "hex n = (if n < 10 then char_of (48 + n) else char_of (87 + n))"

definition escapeASCII :: "char \<Rightarrow> string" where
  "escapeASCII c =
     (let b = (of_char c :: nat) in
      if 0x20 \<le> b \<and> c \<noteq> backslash \<and> c \<noteq> quote
         \<and> c \<noteq> CHR ''<'' \<and> c \<noteq> CHR ''>'' \<and> c \<noteq> CHR ''&''
      then [c]
      else if c = backslash \<or> c = quote then [backslash, c]
      else if c = CHR 0x0A then [backslash, CHR ''n'']
      else if c = CHR 0x0D then [backslash, CHR ''r'']
      else if c = CHR 0x09 then [backslash, CHR ''t'']
      else [backslash, CHR ''u'', CHR ''0'', CHR ''0'', hex (b div 16), hex (b mod 16)])"

fun encodeString :: "string \<Rightarrow> string" where
  "encodeString [] = []"
| "encodeString (c # cs) =
     (if (of_char c :: nat) < 0x80 then escapeASCII c @ encodeString cs
      else
        (case DecodeRune (c # cs) of
           (r, width) \<Rightarrow>
             if r = RuneError \<and> width = 1
             then [backslash, CHR ''u'', CHR ''f'', CHR ''f'', CHR ''f'', CHR ''d'']
                  @ encodeString cs
             else if r = 0x2028 \<or> r = 0x2029
             then [backslash, CHR ''u'', CHR ''2'', CHR ''0'', CHR ''2'', hex (r mod 16)]
                  @ encodeString (drop (width - 1) cs)
             else take width (c # cs) @ encodeString (drop (width - 1) cs)))"

definition quoteString :: "string \<Rightarrow> string" where
  "quoteString s = quote # encodeString s @ [quote]"

fun digits :: "nat \<Rightarrow> string" where
  "digits n = (if n < 10 then [char_of (48 + n)] else digits (n div 10) @ [char_of (48 + n mod 10)])"

definition encodeInt :: "int \<Rightarrow> string" where
  "encodeInt i = (if i < 0 then CHR ''-'' # digits (nat (- i)) else digits (nat i))"

definition encodeBool :: "bool \<Rightarrow> string" where
  "encodeBool b = (if b then ''true'' else ''false'')"

definition json_Marshal :: "request \<Rightarrow> error + string" where
  "json_Marshal req =
     Inr (case req of
            InitRequest r \<Rightarrow>
              ''{\"operation\":'' @ quoteString (Operation r)
              @ '',\"concurrent\":'' @ encodeBool (Concurrent r)
              @ '',\"concurrenttransfers\":'' @ encodeInt (ConcurrentTransfers r) @ ''}''
          | UploadRequest r \<Rightarrow>
              ''{\"oid\":'' @ quoteString (Oid_upload r)
              @ '',\"size\":'' @ encodeInt (Size_upload r)
              @ '',\"path\":'' @ quoteString (Path_upload r)
              @ '',\"action\":'' @ quoteString (Action_upload r) @ ''}''
          | DownloadRequest r \<Rightarrow>
              ''{\"oid\":'' @ quoteString (Oid_download r)
              @ '',\"size\":'' @ encodeInt (Size_download r)
              @ '',\"action\":'' @ quoteString (Action_download r) @ ''}''
          | TerminateRequest r \<Rightarrow>
              ''{\"complete\":'' @ encodeBool (Complete r) @ ''}'')"

text \<open>
  The decoder reads back what the encoder writes: the compact object, with the fields in
  the order of the struct, followed by white space only. Every other text is reported as
  an error (\<open>json.Unmarshal\<close> accepts more: white space, any order of the fields,
  unknown fields, numbers with leading sign and exponent). Inside a string it follows
  the library's \<open>unquote\<close>: the escapes, pairs of surrogates, and the coercion of raw
  bytes to valid UTF-8.
\<close>

definition hexValue :: "char \<Rightarrow> nat option" where
  "hexValue c =
     (let b = (of_char c :: nat) in
      if 48 \<le> b \<and> b \<le> 57 then Some (b - 48)
      else if 97 \<le> b \<and> b \<le> 102 then Some (b - 87)
      else if 65 \<le> b \<and> b \<le> 70 then Some (b - 55)
      else None)"

fun getu4 :: "string \<Rightarrow> nat option" where
  "getu4 (h1 # h2 # h3 # h4 # cs) =
     (case (hexValue h1, hexValue h2, hexValue h3, hexValue h4) of
        (Some a, Some b, Some c, Some d) \<Rightarrow> Some (((a * 16 + b) * 16 + c) * 16 + d)
      | _ \<Rightarrow> None)"
| "getu4 _ = None"

definition simpleEscape :: "char \<Rightarrow> char option" where
  "simpleEscape e =
     (if e = quote \<or> e = backslash \<or> e = CHR ''/'' then Some e
      else if e = CHR ''b'' then Some (CHR 0x08)
      else if e = CHR ''f'' then Some (CHR 0x0C)
      else if e = CHR ''n'' then Some (CHR 0x0A)
      else if e = CHR ''r'' then Some (CHR 0x0D)
      else if e = CHR ''t'' then Some (CHR 0x09)
      else None)"

definition surrogatePair :: "nat \<Rightarrow> string \<Rightarrow> nat \<times> nat" where
  "surrogatePair r s =
     (case s of
        b # u # rest4 \<Rightarrow>
          (if b = backslash \<and> u = CHR ''u'' then
             (case getu4 rest4 of
                Some r1 \<Rightarrow>
                  if r < 0xDC00 \<and> 0xDC00 \<le> r1 \<and> r1 < 0xE000
                  then ((r - 0xD800) * 1024 + (r1 - 0xDC00) + 0x10000, 6)
                  else (RuneError, 0)
              | None \<Rightarrow> (RuneError, 0))
           else (RuneError, 0))
      | _ \<Rightarrow> (RuneError, 0))"

definition prepend :: "string \<Rightarrow> (string \<times> string) option \<Rightarrow> (string \<times> string) option" where
  "prepend xs res = (case res of None \<Rightarrow> None | Some (s, rest) \<Rightarrow> Some (xs @ s, rest))"

fun unquote :: "string \<Rightarrow> (string \<times> string) option" where
  "unquote [] = None"
| "unquote (c # cs) =
     (if c = quote then Some ([], cs)
      else if c = backslash then
        (case cs of
           [] \<Rightarrow> None
         | e # cs' \<Rightarrow>
             (if e = CHR ''u'' then
                (case getu4 cs' of
                   None \<Rightarrow> None
                 | Some r \<Rightarrow>
                     (case (if 0xD800 \<le> r \<and> r < 0xE000 then surrogatePair r (drop 4 cs')
                            else (r, 0)) of
                        (r', k) \<Rightarrow> prepend (EncodeRune r') (unquote (drop (4 + k) cs'))))
              else
                (case simpleEscape e of
                   None \<Rightarrow> None
                 | Some ch \<Rightarrow> prepend [ch] (unquote cs'))))
      else if (of_char c :: nat) < 0x20 then None
      else if (of_char c :: nat) < 0x80 then prepend [c] (unquote cs)
      else
        (case DecodeRune (c # cs) of
           (r, width) \<Rightarrow> prepend (EncodeRune r) (unquote (drop (width - 1) cs))))"

definition decodeString :: "string \<Rightarrow> (string \<times> string) option" where
  "decodeString s = (case s of [] \<Rightarrow> None | c # cs \<Rightarrow> if c = quote then unquote cs else None)"

definition isDigit :: "char \<Rightarrow> bool" where
  "isDigit c = (48 \<le> (of_char c :: nat) \<and> (of_char c :: nat) \<le> 57)"

fun parseDigits :: "nat \<Rightarrow> string \<Rightarrow> nat \<times> string" where
  "parseDigits acc [] = (acc, [])"
| "parseDigits acc (c # cs) =
     (if isDigit c then parseDigits (acc * 10 + ((of_char c :: nat) - 48)) cs else (acc, c # cs))"

definition numberEnd :: "int \<Rightarrow> string \<Rightarrow> (int \<times> string) option" where
  "numberEnd v rest =
     (case rest of
        [] \<Rightarrow> Some (v, rest)
      | c # cs \<Rightarrow> if c = CHR ''.'' \<or> c = CHR ''e'' \<or> c = CHR ''E'' then None else Some (v, rest))"

definition decodeInt :: "string \<Rightarrow> (int \<times> string) option" where
  "decodeInt s =
     (case s of
        [] \<Rightarrow> None
      | c # cs \<Rightarrow>
          if c = CHR ''-'' then
            (case cs of
               [] \<Rightarrow> None
             | d # ds \<Rightarrow>
                 if isDigit d then (case parseDigits 0 cs of (n, rest) \<Rightarrow> numberEnd (- int n) rest)
                 else None)
          else if isDigit c then (case parseDigits 0 s of (n, rest) \<Rightarrow> numberEnd (int n) rest)
          else None)"

fun expect :: "string \<Rightarrow> string \<Rightarrow> string option" where
  "expect [] s = Some s"
| "expect (c # cs) [] = None"
| "expect (c # cs) (d # ds) = (if c = d then expect cs ds else None)"

definition decodeBool :: "string \<Rightarrow> (bool \<times> string) option" where
  "decodeBool s =
     (case expect ''true'' s of
        Some rest \<Rightarrow> Some (True, rest)
      | None \<Rightarrow> (case expect ''false'' s of Some rest \<Rightarrow> Some (False, rest) | None \<Rightarrow> None))"

definition isSpace :: "char \<Rightarrow> bool" where
  "isSpace c = (c = CHR '' '' \<or> c = CHR 0x09 \<or> c = CHR 0x0D \<or> c = CHR 0x0A)"

definition objectEnd :: "string \<Rightarrow> bool" where
  "objectEnd s = (case expect ''}'' s of None \<Rightarrow> False | Some rest \<Rightarrow> list_all isSpace rest)"

definition decodeInitRequest :: "string \<Rightarrow> customAdapterInitRequest option" where
  "decodeInitRequest s =
     (case expect ''{\"operation\":'' s of None \<Rightarrow> None | Some s1 \<Rightarrow>
      case decodeString s1 of None \<Rightarrow> None | Some (op, s2) \<Rightarrow>
      case expect '',\"concurrent\":'' s2 of None \<Rightarrow> None | Some s3 \<Rightarrow>
      case decodeBool s3 of None \<Rightarrow> None | Some (conc, s4) \<Rightarrow>
      case expect '',\"concurrenttransfers\":'' s4 of None \<Rightarrow> None | Some s5 \<Rightarrow>
      case decodeInt s5 of None \<Rightarrow> None | Some (n, s6) \<Rightarrow>
      if objectEnd s6
      then Some \<lparr>Operation = op, Concurrent = conc, ConcurrentTransfers = n\<rparr>
      else None)"

definition decodeUploadRequest :: "string \<Rightarrow> customAdapterUploadRequest option" where
  "decodeUploadRequest s =
     (case expect ''{\"oid\":'' s of None \<Rightarrow> None | Some s1 \<Rightarrow>
      case decodeString s1 of None \<Rightarrow> None | Some (oid, s2) \<Rightarrow>
      case expect '',\"size\":'' s2 of None \<Rightarrow> None | Some s3 \<Rightarrow>
      case decodeInt s3 of None \<Rightarrow> None | Some (n, s4) \<Rightarrow>
      case expect '',\"path\":'' s4 of None \<Rightarrow> None | Some s5 \<Rightarrow>
      case decodeString s5 of None \<Rightarrow> None | Some (pth, s6) \<Rightarrow>
      case expect '',\"action\":'' s6 of None \<Rightarrow> None | Some s7 \<Rightarrow>
      case decodeString s7 of None \<Rightarrow> None | Some (act, s8) \<Rightarrow>
      if objectEnd s8
      then Some \<lparr>Oid_upload = oid, Size_upload = n, Path_upload = pth, Action_upload = act\<rparr>
      else None)"

definition decodeDownloadRequest :: "string \<Rightarrow> customAdapterDownloadRequest option" where
  "decodeDownloadRequest s =
     (case expect ''{\"oid\":'' s of None \<Rightarrow> None | Some s1 \<Rightarrow>
      case decodeString s1 of None \<Rightarrow> None | Some (oid, s2) \<Rightarrow>
      case expect '',\"size\":'' s2 of None \<Rightarrow> None | Some s3 \<Rightarrow>
      case decodeInt s3 of None \<Rightarrow> None | Some (n, s4) \<Rightarrow>
      case expect '',\"action\":'' s4 of None \<Rightarrow> None | Some s5 \<Rightarrow>
      case decodeString s5 of None \<Rightarrow> None | Some (act, s6) \<Rightarrow>
      if objectEnd s6
      then Some \<lparr>Oid_download = oid, Size_download = n, Action_download = act\<rparr>
      else None)"

definition decodeTerminateRequest :: "string \<Rightarrow> customAdapterTerminateRequest option" where
  "decodeTerminateRequest s =
     (case expect ''{\"complete\":'' s of None \<Rightarrow> None | Some s1 \<Rightarrow>
      case decodeBool s1 of None \<Rightarrow> None | Some (c, s2) \<Rightarrow>
      if objectEnd s2 then Some \<lparr>Complete = c\<rparr> else None)"

fun json_Unmarshal :: "string \<Rightarrow> request \<Rightarrow> request \<times> error option" where
  "json_Unmarshal line (InitRequest r) =
     (case decodeInitRequest line of
        Some r' \<Rightarrow> (InitRequest r', None)
      | None \<Rightarrow> (InitRequest r, Some (IOError ''invalid JSON'')))"
| "json_Unmarshal line (UploadRequest r) =
     (case decodeUploadRequest line of
        Some r' \<Rightarrow> (UploadRequest r', None)
      | None \<Rightarrow> (UploadRequest r, Some (IOError ''invalid JSON'')))"
| "json_Unmarshal line (DownloadRequest r) =
     (case decodeDownloadRequest line of
        Some r' \<Rightarrow> (DownloadRequest r', None)
      | None \<Rightarrow> (DownloadRequest r, Some (IOError ''invalid JSON'')))"
| "json_Unmarshal line (TerminateRequest r) =
     (case decodeTerminateRequest line of
        Some r' \<Rightarrow> (TerminateRequest r', None)
      | None \<Rightarrow> (TerminateRequest r, Some (IOError ''invalid JSON'')))"

text \<open>
  The zero value of a request's struct, as the target of the decoding; a request whose
  strings are valid UTF-8 (\<open>utf8.ValidString\<close>); and the end of a number inside an
  object.
\<close>

fun blank :: "request \<Rightarrow> request" where
  "blank (InitRequest r) = InitRequest \<lparr>Operation = [], Concurrent = False, ConcurrentTransfers = 0\<rparr>"
| "blank (UploadRequest r) =
     UploadRequest \<lparr>Oid_upload = [], Size_upload = 0, Path_upload = [], Action_upload = []\<rparr>"
| "blank (DownloadRequest r) =
     DownloadRequest \<lparr>Oid_download = [], Size_download = 0, Action_download = []\<rparr>"
| "blank (TerminateRequest r) = TerminateRequest \<lparr>Complete = False\<rparr>"

fun validUTF8 :: "string \<Rightarrow> bool" where
  "validUTF8 [] = True"
| "validUTF8 (c # cs) =
     (case DecodeRune (c # cs) of
        (r, width) \<Rightarrow> \<not> (r = RuneError \<and> width = 1) \<and> validUTF8 (drop (width - 1) cs))"

fun validRequest :: "request \<Rightarrow> bool" where
  "validRequest (InitRequest r) = validUTF8 (Operation r)"
| "validRequest (UploadRequest r) =
     (validUTF8 (Oid_upload r) \<and> validUTF8 (Path_upload r) \<and> validUTF8 (Action_upload r))"
| "validRequest (DownloadRequest r) = (validUTF8 (Oid_download r) \<and> validUTF8 (Action_download r))"
| "validRequest (TerminateRequest r) = True"

definition valueEnd :: "string \<Rightarrow> bool" where
  "valueEnd rest = (\<exists>cs. rest = CHR '','' # cs \<or> rest = CHR ''}'' # cs)"

text \<open>
  A loopback double of the external process for one call: its output is what the call
  has written to its input, that is the writes the call has added to the history.
\<close>

definition written :: "syscall \<Rightarrow> string" where
  "written s = (case s of Write b \<Rightarrow> b | _ \<Rightarrow> [])"

definition loopback :: "process \<Rightarrow> process \<Rightarrow> process" where
  "loopback before after =
     after\<lparr>bufferedOut := concat (map written (drop (length (syscalls before)) (syscalls after)))\<rparr>"

text \<open>
  More doubles for the examples: the library with the JSON encoder above, a process that
  has been started, a process whose two \<open>Close\<close> calls fail, an upload request whose
  path holds a quote and a two-byte UTF-8 character, and one whose path holds the single
  byte 0xE9 (\<open>e\<close> with an acute accent in Latin-1), which is not valid UTF-8.
\<close>

definition jsonExternals :: externals where
  "jsonExternals = (fakeExternals [])\<lparr>Marshal := json_Marshal\<rparr>"

definition startedProcess :: process where
  "startedProcess = (fakeProcess None None [])\<lparr>syscalls := [Start]\<rparr>"

definition closeFailingProcess :: process where
  "closeFailingProcess =
     (fakeProcess None None [])\<lparr>stdinCloseErr := Some (IOError ''close |1: file already closed''),
                                 stdoutCloseErr := Some (IOError ''close |0: file already closed'')\<rparr>"

definition quotedPathUpload :: request where
  "quotedPathUpload =
     UploadRequest \<lparr>Oid_upload = ''ab'', Size_upload = 10,
                    Path_upload = [CHR ''a'', CHR 0x22, CHR 0xC3, CHR 0xA9],
                    Action_upload = ''x''\<rparr>"

definition latin1PathUpload :: request where
  "latin1PathUpload =
     UploadRequest \<lparr>Oid_upload = ''ab'', Size_upload = 10,
                    Path_upload = [CHR ''a'', CHR 0xE9],
                    Action_upload = ''x''\<rparr>"

section \<open>Properties\<close>

subsection \<open>Reading lines and choosing a candidate\<close>

lemma ReadString_found:
  assumes "delim \<in> set (bufferedOut p)"
  shows "ReadString delim p =
           ((takeWhile (\<lambda>c. c \<noteq> delim) (bufferedOut p) @ [delim], None),
            p\<lparr>bufferedOut := tl (dropWhile (\<lambda>c. c \<noteq> delim) (bufferedOut p))\<rparr>)"
    and "bufferedOut p = (takeWhile (\<lambda>c. c \<noteq> delim) (bufferedOut p) @ [delim])
           @ tl (dropWhile (\<lambda>c. c \<noteq> delim) (bufferedOut p))"
proof -
  show "ReadString delim p =
           ((takeWhile (\<lambda>c. c \<noteq> delim) (bufferedOut p) @ [delim], None),
            p\<lparr>bufferedOut := tl (dropWhile (\<lambda>c. c \<noteq> delim) (bufferedOut p))\<rparr>)"
    using assms by (simp add: ReadString_def)
  from assms have ne: "dropWhile (\<lambda>c. c \<noteq> delim) (bufferedOut p) \<noteq> []"
    by auto
  then have "hd (dropWhile (\<lambda>c. c \<noteq> delim) (bufferedOut p)) = delim"
    using hd_dropWhile [of "\<lambda>c. c \<noteq> delim" "bufferedOut p"] by simp
  with ne have "dropWhile (\<lambda>c. c \<noteq> delim) (bufferedOut p)
      = delim # tl (dropWhile (\<lambda>c. c \<noteq> delim) (bufferedOut p))"
    by (cases "dropWhile (\<lambda>c. c \<noteq> delim) (bufferedOut p)") auto
  then show "bufferedOut p = (takeWhile (\<lambda>c. c \<noteq> delim) (bufferedOut p) @ [delim])
           @ tl (dropWhile (\<lambda>c. c \<noteq> delim) (bufferedOut p))"
    using takeWhile_dropWhile_id [of "\<lambda>c. c \<noteq> delim" "bufferedOut p"] by simp
qed

lemma ReadString_line:
  assumes "bufferedOut p = l @ delim # rest" and "delim \<notin> set l"
  shows "ReadString delim p = ((l @ [delim], None), p\<lparr>bufferedOut := rest\<rparr>)"
proof -
  from assms(2) have tw: "takeWhile (\<lambda>c. c \<noteq> delim) (l @ delim # rest) = l"
    by (auto simp: takeWhile_tail)
  from assms(2) have dw: "dropWhile (\<lambda>c. c \<noteq> delim) (l @ delim # rest) = delim # rest"
    by (auto simp: dropWhile_append3)
  from assms(1) have "delim \<in> set (bufferedOut p)" by simp
  then show ?thesis
    using assms(1) tw dw by (simp add: ReadString_def)
qed

lemma firstUnmarshalled_length:
  "firstUnmarshalled u line i rs = (found, rs') \<Longrightarrow> length rs' = length rs"
  by (induction rs arbitrary: i found rs') (auto split: prod.splits option.splits)

lemma firstUnmarshalled_found:
  "firstUnmarshalled u line k rs = (Some i, rs')
     \<Longrightarrow> k \<le> i \<and> i - k < length rs \<and> snd (u line (rs ! (i - k))) = None
         \<and> (\<forall>j < i - k. snd (u line (rs ! j)) \<noteq> None)"
proof (induction rs arbitrary: k rs')
  case Nil
  then show ?case by simp
next
  case (Cons r rs)
  show ?case
  proof (cases "snd (u line r)")
    case None
    with Cons.prems show ?thesis
      by (auto split: prod.splits)
  next
    case (Some e)
    with Cons.prems obtain rs'' where rec: "firstUnmarshalled u line (Suc k) rs = (Some i, rs'')"
      by (auto split: prod.splits)
    from Cons.IH [OF rec] have ih: "Suc k \<le> i" "i - Suc k < length rs"
      "snd (u line (rs ! (i - Suc k))) = None"
      "\<forall>j < i - Suc k. snd (u line (rs ! j)) \<noteq> None"
      by auto
    from ih(1) have eq: "i - k = Suc (i - Suc k)" by simp
    have "\<forall>j < i - k. snd (u line ((r # rs) ! j)) \<noteq> None"
    proof (intro allI impI)
      fix j assume "j < i - k"
      then show "snd (u line ((r # rs) ! j)) \<noteq> None"
        using ih(4) Some eq by (cases j) auto
    qed
    with ih eq show ?thesis by simp
  qed
qed

lemma firstUnmarshalled_none:
  "firstUnmarshalled u line k rs = (None, rs') \<Longrightarrow> \<forall>j < length rs. snd (u line (rs ! j)) \<noteq> None"
proof (induction rs arbitrary: k rs')
  case Nil
  then show ?case by simp
next
  case (Cons r rs)
  from Cons.prems obtain e rs'' where e: "snd (u line r) = Some e"
    and rec: "firstUnmarshalled u line (Suc k) rs = (None, rs'')"
    by (auto split: prod.splits option.splits)
  show ?case
  proof (intro allI impI)
    fix j assume "j < length (r # rs)"
    then show "snd (u line ((r # rs) ! j)) \<noteq> None"
      using Cons.IH [OF rec] e by (cases j) auto
  qed
qed

subsection \<open>The transfer loop\<close>

text \<open>
  The candidates of \<open>DoTransfer\<close> stay a pointer to a progress response and a
  pointer to a transfer response whatever is decoded into them, and a successful read
  reports index 0 or 1. Both type assertions of the loop are made on \<open>possResps[0]\<close>
  and ask for a struct held by value, so the first response that decodes ends the loop
  with a panic.
\<close>

lemma readResponse_candidates:
  assumes "readResponse (Unmarshal E) [PtrProgressResponse x, PtrTransferResponse y] p = ((i, err), rs, p')"
  shows "(\<exists>x' y'. rs = [PtrProgressResponse x', PtrTransferResponse y'])
         \<and> (err = None \<longrightarrow> i = 0 \<or> i = 1)
         \<and> (\<forall>e. err = Some e \<longrightarrow> e = EOF \<or> (\<exists>line. e = NoMatchingResponse line))"
  using assms
  by (auto simp: readResponse_def ReadString_def split: prod.splits option.splits if_splits)

lemma transferLoop_panics:
  assumes "readResponse (Unmarshal E) [PtrProgressResponse x, PtrTransferResponse y] p
             = ((respIdx, None), rs, p')"
  shows "transferLoop E t cb authOkFunc [PtrProgressResponse x, PtrTransferResponse y] authCalled calls p
           = (LoopPanicked, calls, p')"
proof -
  from readResponse_candidates [OF assms] obtain x' y' where
    rs: "rs = [PtrProgressResponse x', PtrTransferResponse y']" and i: "respIdx = 0 \<or> respIdx = 1"
    by blast
  from i assms rs show ?thesis
    by (subst transferLoop.simps) auto
qed

lemma transferLoop_exits:
  "\<exists>p'. transferLoop E t cb authOkFunc [PtrProgressResponse x, PtrTransferResponse y] authCalled calls p
            = (LoopPanicked, calls, p')
     \<or> transferLoop E t cb authOkFunc [PtrProgressResponse x, PtrTransferResponse y] authCalled calls p
            = (LoopReturned EOF, calls, p')
     \<or> (\<exists>line. transferLoop E t cb authOkFunc [PtrProgressResponse x, PtrTransferResponse y] authCalled calls p
            = (LoopReturned (NoMatchingResponse line), calls, p'))"
proof -
  obtain i err rs p' where r:
    "readResponse (Unmarshal E) [PtrProgressResponse x, PtrTransferResponse y] p = ((i, err), rs, p')"
    by (metis prod.exhaust)
  from readResponse_candidates [OF r] obtain x' y' where
    rs: "rs = [PtrProgressResponse x', PtrTransferResponse y']"
    and i: "err = None \<longrightarrow> i = 0 \<or> i = 1"
    and e: "\<forall>e. err = Some e \<longrightarrow> e = EOF \<or> (\<exists>line. e = NoMatchingResponse line)"
    by blast
  show ?thesis
  proof (cases err)
    case None
    with i r rs show ?thesis
      by (subst transferLoop.simps, subst transferLoop.simps, subst transferLoop.simps) auto
  next
    case (Some e')
    with e r show ?thesis
      by (subst transferLoop.simps, subst transferLoop.simps, subst transferLoop.simps) auto
  qed
qed

lemma DoTransfer_exits:
  "\<exists>p'. DoTransfer E a ctx t cb authOkFunc p = (Panicked, [], p')
     \<or> (\<exists>err. DoTransfer E a ctx t cb authOkFunc p = (Returned (Some err), [], p'))"
proof (cases ctx)
  case PtrWorkerContext
  show ?thesis
  proof (cases "transferRequest E a t")
    case (Inl err)
    with PtrWorkerContext show ?thesis by (simp add: DoTransfer_def)
  next
    case (Inr req)
    obtain serr p1 where s: "sendMessage E req p = (serr, p1)"
      by (cases "sendMessage E req p")
    show ?thesis
    proof (cases serr)
      case (Some err)
      with PtrWorkerContext Inr s show ?thesis by (simp add: DoTransfer_def)
    next
      case None
      from transferLoop_exits [of E t cb authOkFunc
          "\<lparr>Oid_progress = [], BytesSoFar = 0, BytesSinceLast = 0\<rparr>"
          "\<lparr>Oid_transfer = [], Path_transfer = [], Error_transfer = None\<rparr>" False "[]" p1]
      show ?thesis
        using PtrWorkerContext Inr s None by (auto simp: DoTransfer_def)
    qed
  qed
qed (simp_all add: DoTransfer_def)

subsection \<open>Worker start and end\<close>

lemma exchangeMessage_writes:
  assumes "writeErr p = None" and "Marshal E req = Inr b"
  shows "\<exists>err resp p'. exchangeMessage E req (Some r) p = (err, resp, p')
           \<and> syscalls p' = syscalls p @ [Write (b @ [newline])]"
  using assms
  by (auto simp: exchangeMessage_def sendMessage_def stdin_Write_def readResponse_def
      ReadString_def split: prod.splits option.splits)

lemma WorkerStarting_sends:
  assumes "cmd = ExecCommand E (path a) (args a)"
    and "stdoutPipeErr cmd = None" and "stdinPipeErr cmd = None" and "startErr cmd = None"
    and "writeErr cmd = None"
    and "Marshal E (InitRequest \<lparr>Operation = (if direction a = Download then ''download'' else ''upload''),
            Concurrent = concurrent a, ConcurrentTransfers = originalConcurrency a\<rparr>) = Inr b"
  shows "\<exists>rest. syscalls (snd (WorkerStarting E a workerNum))
           = syscalls cmd @ Start # Write (b @ [newline]) # rest"
proof -
  have w: "writeErr (cmd\<lparr>syscalls := syscalls cmd @ [Start]\<rparr>) = None"
    using assms(5) by simp
  from exchangeMessage_writes [OF w assms(6), of "PtrInitResponse \<lparr>Error_init = None\<rparr>"]
  obtain err resp p' where
    x: "exchangeMessage E
          (InitRequest \<lparr>Operation = (if direction a = Download then ''download'' else ''upload''),
             Concurrent = concurrent a, ConcurrentTransfers = originalConcurrency a\<rparr>)
          (Some (PtrInitResponse \<lparr>Error_init = None\<rparr>))
          (cmd\<lparr>syscalls := syscalls cmd @ [Start]\<rparr>) = (err, resp, p')"
    and sc: "syscalls p' = syscalls cmd @ [Start, Write (b @ [newline])]"
    by auto
  have "WorkerStarting E a workerNum =
      (case err of Some e \<Rightarrow> ((NilContext, Some e), abortWorkerProcess p')
                 | None \<Rightarrow> ((PtrWorkerContext, None), p'))"
    using assms(2-4) x unfolding WorkerStarting_def Let_def assms(1) [symmetric]
    by (simp split: option.splits)
  with sc show ?thesis
    by (cases err)
      (simp_all add: abortWorkerProcess_def Process_Kill_def stdout_Close_def stdin_Close_def)
qed

text \<open>
  When the process has been launched and the init exchange fails (the request cannot be
  written, no line can be read, or the line does not decode), \<open>WorkerStarting\<close>
  returns no context and leaves the process aborted.
\<close>

lemma WorkerStarting_failure_aborts:
  assumes "cmd = ExecCommand E (path a) (args a)"
    and "stdoutPipeErr cmd = None" and "stdinPipeErr cmd = None" and "startErr cmd = None"
    and "WorkerStarting E a workerNum = ((ctx, Some err), p')"
  shows "ctx = NilContext \<and> (\<exists>before. syscalls p' = before @ [CloseStdin, CloseStdout, Kill])"
proof -
  obtain xerr resp p1 where
    x: "exchangeMessage E
          (InitRequest \<lparr>Operation = (if direction a = Download then ''download'' else ''upload''),
             Concurrent = concurrent a, ConcurrentTransfers = originalConcurrency a\<rparr>)
          (Some (PtrInitResponse \<lparr>Error_init = None\<rparr>))
          (cmd\<lparr>syscalls := syscalls cmd @ [Start]\<rparr>) = (xerr, resp, p1)"
    by (metis prod.exhaust)
  have "WorkerStarting E a workerNum =
      (case xerr of Some e \<Rightarrow> ((NilContext, Some e), abortWorkerProcess p1)
                 | None \<Rightarrow> ((PtrWorkerContext, None), p1))"
    using assms(2-4) x unfolding WorkerStarting_def Let_def assms(1) [symmetric]
    by (simp split: option.splits)
  with assms(5) show ?thesis
    by (cases xerr)
      (auto simp: abortWorkerProcess_def Process_Kill_def stdout_Close_def stdin_Close_def)
qed

text \<open>
  Given a context that is nil or of another dynamic type, \<open>WorkerEnding\<close> returns
  at once and leaves the process as it is.
\<close>

lemma WorkerEnding_without_worker_context:
  "ctx \<noteq> PtrWorkerContext \<Longrightarrow> WorkerEnding E a workerNum ctx p = p"
  by (cases ctx) (simp_all add: WorkerEnding_def)

subsection \<open>Runs of the test doubles\<close>

lemmas fakeLines = initOkLine_def initErrorLine_def progressLine1_def progressLine2_def
  completionLine_def strayCompletionLine_def terminalOnlyLine_def

lemma abcUploadSent:
  "transferRequest (fakeExternals []) (testagent Upload conc) abcTransfer
     = Inr (UploadRequest \<lparr>Oid_upload = ''abc'', Size_upload = 10485760,
              Path_upload = ''/lfs/objects/abc'', Action_upload = ''https://example.com/abc''\<rparr>)"
  "sendMessage (fakeExternals [])
     (UploadRequest \<lparr>Oid_upload = ''abc'', Size_upload = 10485760,
        Path_upload = ''/lfs/objects/abc'', Action_upload = ''https://example.com/abc''\<rparr>)
     (fakeProcess None None out)
     = (None, (fakeProcess None None out)\<lparr>syscalls :=
          [Write (''{\"oid\":\"abc\",\"size\":10485760,\"path\":\"/lfs/objects/abc\",\"action\":{\"href\":\"https://example.com/abc\"}}'' @ [newline])]\<rparr>)"
  by (simp_all add: transferRequest_def testagent_def newCustomAdapter_def abcTransfer_def Rel_def
      fakeExternals_def sendMessage_def stdin_Write_def fakeMarshal_def fakeProcess_def)

lemma abcUploadRequested:
  "sendMessage (fakeExternals [])
     (UploadRequest \<lparr>Oid_upload = ''abc'', Size_upload = 10485760,
        Path_upload = ''/lfs/objects/abc'', Action_upload = ''https://example.com/abc''\<rparr>)
     (fakeProcess None None out) = (None, abcRequested out)"
  by (simp add: abcUploadSent abcRequested_def)

lemma fakeRead_progressLine1:
  "readResponse (Unmarshal (fakeExternals []))
     [PtrProgressResponse \<lparr>Oid_progress = [], BytesSoFar = 0, BytesSinceLast = 0\<rparr>,
      PtrTransferResponse \<lparr>Oid_transfer = [], Path_transfer = [], Error_transfer = None\<rparr>]
     (abcRequested (progressLine1 @ rest))
   = ((0, None),
      [PtrProgressResponse \<lparr>Oid_progress = ''abc'', BytesSoFar = 3145728, BytesSinceLast = 3145728\<rparr>,
       PtrTransferResponse \<lparr>Oid_transfer = [], Path_transfer = [], Error_transfer = None\<rparr>],
      abcRequested rest)"
  by (simp add: readResponse_def ReadString_def abcRequested_def fakeProcess_def fakeExternals_def
      fakeUnmarshalProgressResponse_def fakeLines)

lemma fakeRead_completionLine:
  "readResponse (Unmarshal (fakeExternals []))
     [PtrProgressResponse \<lparr>Oid_progress = [], BytesSoFar = 0, BytesSinceLast = 0\<rparr>,
      PtrTransferResponse \<lparr>Oid_transfer = [], Path_transfer = [], Error_transfer = None\<rparr>]
     (abcRequested (completionLine @ rest))
   = ((0, None),
      [PtrProgressResponse \<lparr>Oid_progress = ''abc'', BytesSoFar = 0, BytesSinceLast = 0\<rparr>,
       PtrTransferResponse \<lparr>Oid_transfer = [], Path_transfer = [], Error_transfer = None\<rparr>],
      abcRequested rest)"
  by (simp add: readResponse_def ReadString_def abcRequested_def fakeProcess_def fakeExternals_def
      fakeUnmarshalProgressResponse_def fakeLines)

lemma fakeRead_strayCompletionLine:
  "readResponse (Unmarshal (fakeExternals []))
     [PtrProgressResponse \<lparr>Oid_progress = [], BytesSoFar = 0, BytesSinceLast = 0\<rparr>,
      PtrTransferResponse \<lparr>Oid_transfer = [], Path_transfer = [], Error_transfer = None\<rparr>]
     (abcRequested (strayCompletionLine @ rest))
   = ((0, None),
      [PtrProgressResponse \<lparr>Oid_progress = ''xyz'', BytesSoFar = 0, BytesSinceLast = 0\<rparr>,
       PtrTransferResponse \<lparr>Oid_transfer = [], Path_transfer = [], Error_transfer = None\<rparr>],
      abcRequested rest)"
  by (simp add: readResponse_def ReadString_def abcRequested_def fakeProcess_def fakeExternals_def
      fakeUnmarshalProgressResponse_def fakeLines)

lemma fakeRead_terminalOnlyLine:
  "readResponse (Unmarshal (fakeExternals []))
     [PtrProgressResponse \<lparr>Oid_progress = [], BytesSoFar = 0, BytesSinceLast = 0\<rparr>,
      PtrTransferResponse \<lparr>Oid_transfer = [], Path_transfer = [], Error_transfer = None\<rparr>]
     (abcRequested (terminalOnlyLine @ rest))
   = ((1, None),
      [PtrProgressResponse \<lparr>Oid_progress = ''abc'', BytesSoFar = 0, BytesSinceLast = 0\<rparr>,
       PtrTransferResponse \<lparr>Oid_transfer = ''abc'', Path_transfer = [], Error_transfer = None\<rparr>],
      abcRequested rest)"
  by (simp add: readResponse_def ReadString_def abcRequested_def fakeProcess_def fakeExternals_def
      fakeUnmarshalProgressResponse_def fakeUnmarshalTransferResponse_def fakeLines)

subsection \<open>The JSON encoding: runes, strings, numbers\<close>

declare digits.simps [simp del]

lemma radix64:
  fixes x y :: nat
  assumes "y < 64"
  shows "(x * 64 + y) div 64 = x" "(x * 64 + y) mod 64 = y"
  using assms by simp_all

lemma two_bytes:
  fixes b0 b1 :: nat
  assumes "0xC2 \<le> b0" "b0 < 0xE0" "0x80 \<le> b1" "b1 \<le> 0xBF"
    and "r = (b0 - 0xC0) * 64 + (b1 - 0x80)"
  shows "0x80 \<le> r" "r < 0x800" "0xC0 + r div 64 = b0" "0x80 + r mod 64 = b1"
proof -
  define x0 x1 where "x0 = b0 - 0xC0" and "x1 = b1 - 0x80"
  have b: "b0 = 0xC0 + x0" "b1 = 0x80 + x1" and x: "2 \<le> x0" "x0 < 32" "x1 < 64"
    using assms(1-4) by (simp_all add: x0_def x1_def)
  have r: "r = x0 * 64 + x1"
    using assms(5) by (simp add: x0_def x1_def)
  show "0x80 \<le> r" "r < 0x800" using r x by simp_all
  show "0xC0 + r div 64 = b0" "0x80 + r mod 64 = b1"
    unfolding r b using radix64 [OF x(3), of x0] by simp_all
qed

lemma three_bytes:
  fixes b0 b1 b2 :: nat
  assumes "0xE0 \<le> b0" "b0 < 0xF0" "(if b0 = 0xE0 then 0xA0 else 0x80) \<le> b1"
    "b1 \<le> (if b0 = 0xED then 0x9F else 0xBF)" "0x80 \<le> b2" "b2 \<le> 0xBF"
    and "r = (b0 - 0xE0) * 4096 + (b1 - 0x80) * 64 + (b2 - 0x80)"
  shows "0x800 \<le> r" "r < 0x10000" "\<not> (0xD800 \<le> r \<and> r < 0xE000)"
    "0xE0 + r div 4096 = b0" "0x80 + (r div 64) mod 64 = b1" "0x80 + r mod 64 = b2"
proof -
  define x0 x1 x2 where "x0 = b0 - 0xE0" and "x1 = b1 - 0x80" and "x2 = b2 - 0x80"
  have b: "b0 = 0xE0 + x0" "b1 = 0x80 + x1" "b2 = 0x80 + x2"
    and x: "x0 < 16" "x1 < 64" "x2 < 64"
    and lo: "x0 = 0 \<longrightarrow> 32 \<le> x1" and hi: "x0 = 13 \<longrightarrow> x1 < 32"
    using assms(1-6) by (auto simp: x0_def x1_def x2_def split: if_splits)
  have r: "r = (x0 * 64 + x1) * 64 + x2"
    using assms(7) by (simp add: x0_def x1_def x2_def)
  have d: "r div 64 = x0 * 64 + x1" and m: "r mod 64 = x2"
    unfolding r using radix64 [OF x(3), of "x0 * 64 + x1"] by simp_all
  have d2: "r div 4096 = x0"
  proof -
    have "r div 4096 = (r div 64) div 64" by (simp add: div_mult2_eq)
    then show ?thesis unfolding d using radix64 [OF x(2), of x0] by simp
  qed
  have m2: "(r div 64) mod 64 = x1"
    unfolding d using radix64 [OF x(2), of x0] by simp
  show "0xE0 + r div 4096 = b0" "0x80 + (r div 64) mod 64 = b1" "0x80 + r mod 64 = b2"
    using d2 m2 m b by simp_all
  show "0x800 \<le> r" using lo x unfolding r by (cases "x0 = 0") auto
  show "r < 0x10000" using x unfolding r by simp
  show "\<not> (0xD800 \<le> r \<and> r < 0xE000)"
  proof -
    consider "x0 < 13" | "x0 = 13" | "13 < x0" by linarith
    then show ?thesis
    proof cases
      case 1
      with x have "r < 0xD800" unfolding r by simp
      then show ?thesis by simp
    next
      case 2
      with hi have "x1 < 32" by simp
      with 2 x have "r < 0xD800" unfolding r by simp
      then show ?thesis by simp
    next
      case 3
      then have "0xE000 \<le> r" unfolding r by simp
      then show ?thesis by simp
    qed
  qed
qed

lemma four_bytes:
  fixes b0 b1 b2 b3 :: nat
  assumes "0xF0 \<le> b0" "b0 < 0xF5" "(if b0 = 0xF0 then 0x90 else 0x80) \<le> b1"
    "b1 \<le> (if b0 = 0xF4 then 0x8F else 0xBF)" "0x80 \<le> b2" "b2 \<le> 0xBF"
    "0x80 \<le> b3" "b3 \<le> 0xBF"
    and "r = (b0 - 0xF0) * 262144 + (b1 - 0x80) * 4096 + (b2 - 0x80) * 64 + (b3 - 0x80)"
  shows "0x10000 \<le> r" "r \<le> 0x10FFFF"
    "0xF0 + r div 262144 = b0" "0x80 + (r div 4096) mod 64 = b1"
    "0x80 + (r div 64) mod 64 = b2" "0x80 + r mod 64 = b3"
proof -
  define x0 x1 x2 x3 where "x0 = b0 - 0xF0" and "x1 = b1 - 0x80" and "x2 = b2 - 0x80"
    and "x3 = b3 - 0x80"
  have b: "b0 = 0xF0 + x0" "b1 = 0x80 + x1" "b2 = 0x80 + x2" "b3 = 0x80 + x3"
    and x: "x0 < 5" "x1 < 64" "x2 < 64" "x3 < 64"
    and lo: "x0 = 0 \<longrightarrow> 16 \<le> x1" and hi: "x0 = 4 \<longrightarrow> x1 < 16"
    using assms(1-8) by (auto simp: x0_def x1_def x2_def x3_def split: if_splits)
  have r: "r = ((x0 * 64 + x1) * 64 + x2) * 64 + x3"
    using assms(9) by (simp add: x0_def x1_def x2_def x3_def)
  have d: "r div 64 = (x0 * 64 + x1) * 64 + x2" and m: "r mod 64 = x3"
    unfolding r using radix64 [OF x(4), of "(x0 * 64 + x1) * 64 + x2"] by simp_all
  have d2: "r div 4096 = x0 * 64 + x1"
  proof -
    have "r div 4096 = (r div 64) div 64" by (simp add: div_mult2_eq)
    then show ?thesis unfolding d using radix64 [OF x(3), of "x0 * 64 + x1"] by simp
  qed
  have m2: "(r div 64) mod 64 = x2"
    unfolding d using radix64 [OF x(3), of "x0 * 64 + x1"] by simp
  have d3: "r div 262144 = x0"
  proof -
    have "r div 262144 = (r div 4096) div 64" by (simp add: div_mult2_eq)
    then show ?thesis unfolding d2 using radix64 [OF x(2), of x0] by simp
  qed
  have m3: "(r div 4096) mod 64 = x1"
    unfolding d2 using radix64 [OF x(2), of x0] by simp
  show "0xF0 + r div 262144 = b0" "0x80 + (r div 4096) mod 64 = b1"
    "0x80 + (r div 64) mod 64 = b2" "0x80 + r mod 64 = b3"
    using d3 m3 m2 m b by simp_all
  show "0x10000 \<le> r" using lo x unfolding r by (cases "x0 = 0") auto
  show "r \<le> 0x10FFFF" using hi x unfolding r by (cases "x0 = 4") auto
qed

lemma DecodeRune_valid:
  assumes d: "DecodeRune (c0 # cs) = (r, n)" and hi: "0x80 \<le> (of_char c0 :: nat)"
    and ok: "\<not> (r = RuneError \<and> n = 1)"
  shows "2 \<le> n \<and> n \<le> length (c0 # cs) \<and> EncodeRune r = take n (c0 # cs)
    \<and> (\<forall>c \<in> set (take n (c0 # cs)). 0x80 \<le> (of_char c :: nat))
    \<and> (\<forall>ys. DecodeRune (take n (c0 # cs) @ ys) = (r, n))"
proof -
  define b0 where "b0 = (of_char c0 :: nat)"
  have b0: "(of_char c0 :: nat) = b0" by (simp add: b0_def)
  from d hi ok have r0: "0xC2 \<le> b0" "b0 < 0xF5"
    by (auto simp: Let_def b0 split: if_splits)
  consider "b0 < 0xE0" | "0xE0 \<le> b0" "b0 < 0xF0" | "0xF0 \<le> b0"
    by linarith
  then show ?thesis
  proof cases
    case 1
    with d ok r0 obtain c1 cs1 where cs: "cs = c1 # cs1"
      and b1: "0x80 \<le> (of_char c1 :: nat)" "(of_char c1 :: nat) \<le> 0xBF"
      and r: "r = (b0 - 0xC0) * 64 + ((of_char c1 :: nat) - 0x80)" and n: "n = 2"
      by (auto simp: Let_def b0 split: if_splits list.splits)
    note t = two_bytes [OF r0(1) 1 b1 r]
    have e: "EncodeRune r = [c0, c1]"
      using t by (auto simp: EncodeRune_def b0_def)
    have "DecodeRune (c0 # c1 # ys) = (r, 2)" for ys
      using r0 1 b1 r by (simp add: Let_def b0)
    with e cs n b1 hi show ?thesis by simp
  next
    case 2
    with d ok r0 obtain c1 c2 cs2 where cs: "cs = c1 # c2 # cs2"
      and b1: "(if b0 = 0xE0 then 0xA0 else 0x80) \<le> (of_char c1 :: nat)"
        "(of_char c1 :: nat) \<le> (if b0 = 0xED then 0x9F else 0xBF)"
      and b2: "0x80 \<le> (of_char c2 :: nat)" "(of_char c2 :: nat) \<le> 0xBF"
      and r: "r = (b0 - 0xE0) * 4096 + ((of_char c1 :: nat) - 0x80) * 64
                + ((of_char c2 :: nat) - 0x80)" and n: "n = 3"
      by (auto simp: Let_def b0 split: if_splits list.splits)
    note t = three_bytes [OF 2 b1 b2 r]
    have e: "EncodeRune r = [c0, c1, c2]"
      using t by (auto simp: EncodeRune_def b0_def)
    have "DecodeRune (c0 # c1 # c2 # ys) = (r, 3)" for ys
      using 2 b1 b2 r by (simp add: Let_def b0)
    moreover have "0x80 \<le> (of_char c1 :: nat)"
      using b1(1) by (simp split: if_splits)
    ultimately show ?thesis using e cs n b2 hi by simp
  next
    case 3
    with d ok r0 obtain c1 c2 c3 cs3 where cs: "cs = c1 # c2 # c3 # cs3"
      and b1: "(if b0 = 0xF0 then 0x90 else 0x80) \<le> (of_char c1 :: nat)"
        "(of_char c1 :: nat) \<le> (if b0 = 0xF4 then 0x8F else 0xBF)"
      and b2: "0x80 \<le> (of_char c2 :: nat)" "(of_char c2 :: nat) \<le> 0xBF"
      and b3: "0x80 \<le> (of_char c3 :: nat)" "(of_char c3 :: nat) \<le> 0xBF"
      and r: "r = (b0 - 0xF0) * 262144 + ((of_char c1 :: nat) - 0x80) * 4096
                + ((of_char c2 :: nat) - 0x80) * 64 + ((of_char c3 :: nat) - 0x80)"
      and n: "n = 4"
      by (auto simp: Let_def b0 split: if_splits list.splits)
    note t = four_bytes [OF 3 r0(2) b1 b2 b3 r]
    have e: "EncodeRune r = [c0, c1, c2, c3]"
      using t by (auto simp: EncodeRune_def b0_def)
    have "DecodeRune (c0 # c1 # c2 # c3 # ys) = (r, 4)" for ys
      using 3 r0 b1 b2 b3 r by (simp add: Let_def b0)
    moreover have "0x80 \<le> (of_char c1 :: nat)"
      using b1(1) by (simp split: if_splits)
    ultimately show ?thesis using e cs n b2 b3 hi by simp
  qed
qed

declare unquote.simps [simp del] getu4.simps [simp del] encodeString.simps [simp del]
  DecodeRune.simps [simp del] validUTF8.simps [simp del]

lemma DecodeRune_ASCII:
  "(of_char c :: nat) < 0x80 \<Longrightarrow> DecodeRune (c # cs) = (of_char c, 1)"
  by (simp add: DecodeRune.simps)

lemma hexValue_hex: "n < 16 \<Longrightarrow> hexValue (hex n) = Some n"
  by (auto simp: hex_def hexValue_def Let_def)

lemma hexValue_zero: "hexValue (CHR ''0'') = Some 0"
  by (simp add: hexValue_def)

lemma getu4_byte:
  assumes "b < 256"
  shows "getu4 (CHR ''0'' # CHR ''0'' # hex (b div 16) # hex (b mod 16) # X) = Some b"
proof -
  have "b div 16 < 16" using assms by simp
  then show ?thesis
    by (simp add: getu4.simps hexValue_zero hexValue_hex)
qed

lemma getu4_2028:
  "r = 0x2028 \<or> r = 0x2029 \<Longrightarrow> getu4 (CHR ''2'' # CHR ''0'' # CHR ''2'' # hex (r mod 16) # X) = Some r"
  by (auto simp: getu4.simps hexValue_def hex_def)

lemma unquote_plain:
  assumes "c \<noteq> quote" "c \<noteq> backslash" "0x20 \<le> (of_char c :: nat)" "(of_char c :: nat) < 0x80"
  shows "unquote (c # X) = prepend [c] (unquote X)"
  using assms by (simp add: unquote.simps)

lemma unquote_simple:
  assumes "simpleEscape e = Some ch" "e \<noteq> CHR ''u''"
  shows "unquote (backslash # e # X) = prepend [ch] (unquote X)"
  using assms by (simp add: unquote.simps)

lemma unquote_u:
  assumes "getu4 (h1 # h2 # h3 # h4 # X) = Some r" "\<not> (0xD800 \<le> r \<and> r < 0xE000)"
  shows "unquote (backslash # CHR ''u'' # h1 # h2 # h3 # h4 # X) = prepend (EncodeRune r) (unquote X)"
  by (subst unquote.simps) (use assms in auto)

lemma unquote_rune:
  assumes "0x80 \<le> (of_char c :: nat)" "DecodeRune (c # cs) = (r, n)"
  shows "unquote (c # cs) = prepend (EncodeRune r) (unquote (drop (n - 1) cs))"
proof -
  have "c \<noteq> quote" "c \<noteq> backslash" using assms(1) by auto
  then show ?thesis using assms by (simp add: unquote.simps)
qed

lemma escapeASCII_cases:
  "escapeASCII c = [c] \<and> c \<noteq> quote \<and> c \<noteq> backslash \<and> 0x20 \<le> (of_char c :: nat)
   \<or> escapeASCII c = [backslash, c] \<and> (c = backslash \<or> c = quote)
   \<or> escapeASCII c = [backslash, CHR ''n''] \<and> c = CHR 0x0A
   \<or> escapeASCII c = [backslash, CHR ''r''] \<and> c = CHR 0x0D
   \<or> escapeASCII c = [backslash, CHR ''t''] \<and> c = CHR 0x09
   \<or> escapeASCII c = [backslash, CHR ''u'', CHR ''0'', CHR ''0'',
                        hex ((of_char c :: nat) div 16), hex ((of_char c :: nat) mod 16)]"
  unfolding escapeASCII_def Let_def by (simp del: of_char_Char)

lemma unquote_escapeASCII:
  assumes "(of_char c :: nat) < 0x80"
  shows "unquote (escapeASCII c @ X) = prepend [c] (unquote X)"
proof -
  define b where "b = (of_char c :: nat)"
  have b: "b < 256" "b < 0x80" using assms by (simp_all add: b_def)
  have g: "getu4 (CHR ''0'' # CHR ''0'' # hex (b div 16) # hex (b mod 16) # X) = Some b"
    by (rule getu4_byte [OF b(1)])
  have er: "EncodeRune b = [c]" using b(2) by (simp add: EncodeRune_def b_def)
  have u: "unquote ([backslash, CHR ''u'', CHR ''0'', CHR ''0'', hex (b div 16), hex (b mod 16)] @ X)
      = prepend [c] (unquote X)"
    using unquote_u [OF g] b(2) er by simp
  have s1: "simpleEscape backslash = Some backslash" "simpleEscape quote = Some quote"
    "simpleEscape (CHR ''n'') = Some (CHR 0x0A)" "simpleEscape (CHR ''r'') = Some (CHR 0x0D)"
    "simpleEscape (CHR ''t'') = Some (CHR 0x09)"
    by (simp_all add: simpleEscape_def)
  from escapeASCII_cases [of c] show ?thesis
  proof (elim disjE conjE)
    assume "escapeASCII c = [c]" "c \<noteq> quote" "c \<noteq> backslash" "0x20 \<le> (of_char c :: nat)"
    with assms show ?thesis by (simp add: unquote_plain)
  next
    assume "escapeASCII c = [backslash, c]" "c = backslash"
    then show ?thesis using unquote_simple [OF s1(1), of X] by simp
  next
    assume "escapeASCII c = [backslash, c]" "c = quote"
    then show ?thesis using unquote_simple [OF s1(2), of X] by simp
  next
    assume "escapeASCII c = [backslash, CHR ''n'']" "c = CHR 0x0A"
    then show ?thesis using unquote_simple [OF s1(3), of X] by simp
  next
    assume "escapeASCII c = [backslash, CHR ''r'']" "c = CHR 0x0D"
    then show ?thesis using unquote_simple [OF s1(4), of X] by simp
  next
    assume "escapeASCII c = [backslash, CHR ''t'']" "c = CHR 0x09"
    then show ?thesis using unquote_simple [OF s1(5), of X] by simp
  next
    assume "escapeASCII c = [backslash, CHR ''u'', CHR ''0'', CHR ''0'',
                        hex ((of_char c :: nat) div 16), hex ((of_char c :: nat) mod 16)]"
    then show ?thesis using u by (simp add: b_def)
  qed
qed

text \<open>
  A string that is valid UTF-8 comes back from its encoding unchanged, whatever follows
  the closing quote; and no encoding holds a line terminator.
\<close>

lemma unquote_encodeString:
  "validUTF8 s \<Longrightarrow> unquote (encodeString s @ quote # rest) = Some (s, rest)"
proof (induction s rule: length_induct)
  case (1 s)
  show ?case
  proof (cases s)
    case Nil
    then show ?thesis by (simp add: encodeString.simps unquote.simps)
  next
    case (Cons c cs)
    show ?thesis
    proof (cases "(of_char c :: nat) < 0x80")
      case True
      from "1.prems" Cons True have v: "validUTF8 cs"
        by (simp add: validUTF8.simps DecodeRune_ASCII)
      have "length cs < length s" using Cons by simp
      with "1.IH" v have ih: "unquote (encodeString cs @ quote # rest) = Some (cs, rest)"
        by blast
      have "encodeString s = escapeASCII c @ encodeString cs"
        using Cons True by (simp add: encodeString.simps)
      then show ?thesis
        using unquote_escapeASCII [OF True, of "encodeString cs @ quote # rest"] ih Cons
        by (simp add: prepend_def)
    next
      case False
      then have hi: "0x80 \<le> (of_char c :: nat)" by simp
      obtain r n where d: "DecodeRune (c # cs) = (r, n)"
        by (cases "DecodeRune (c # cs)")
      from "1.prems" Cons d have ok: "\<not> (r = RuneError \<and> n = 1)"
        and v: "validUTF8 (drop (n - 1) cs)"
        by (simp_all add: validUTF8.simps)
      from DecodeRune_valid [OF d hi ok] have n: "2 \<le> n" "n \<le> length (c # cs)"
        and e: "EncodeRune r = take n (c # cs)"
        and ind: "\<And>ys. DecodeRune (take n (c # cs) @ ys) = (r, n)"
        by blast+
      have "length (drop (n - 1) cs) < length s" using Cons by simp
      with "1.IH" v have ih:
        "unquote (encodeString (drop (n - 1) cs) @ quote # rest) = Some (drop (n - 1) cs, rest)"
        by blast
      have tk: "take n (c # cs) = c # take (n - 1) cs"
        using n(1) by (cases n) simp_all
      have whole: "take n (c # cs) @ drop (n - 1) cs = c # cs"
        by (simp add: tk)
      show ?thesis
      proof (cases "r = 0x2028 \<or> r = 0x2029")
        case True
        then have ns: "\<not> (0xD800 \<le> r \<and> r < 0xE000)" by auto
        have enc: "encodeString s
            = [backslash, CHR ''u'', CHR ''2'', CHR ''0'', CHR ''2'', hex (r mod 16)]
              @ encodeString (drop (n - 1) cs)"
          using Cons False d ok True by (simp add: encodeString.simps)
        from unquote_u [OF getu4_2028 [OF True] ns,
            of "encodeString (drop (n - 1) cs) @ quote # rest"]
        show ?thesis
          using enc ih e whole Cons by (simp add: prepend_def)
      next
        case no: False
        have enc: "encodeString s = take n (c # cs) @ encodeString (drop (n - 1) cs)"
          using Cons False d ok no by (simp add: encodeString.simps)
        define Y where "Y = encodeString (drop (n - 1) cs) @ quote # rest"
        have len: "length (take (n - 1) cs) = n - 1"
          using n(2) by simp
        have "unquote (c # take (n - 1) cs @ Y)
            = prepend (EncodeRune r) (unquote (drop (n - 1) (take (n - 1) cs @ Y)))"
          by (rule unquote_rune [OF hi]) (use ind [of Y] tk in simp)
        also have "drop (n - 1) (take (n - 1) cs @ Y) = Y"
          using len by simp
        finally have "unquote (take n (c # cs) @ Y) = prepend (EncodeRune r) (unquote Y)"
          by (simp add: tk)
        then show ?thesis
          using enc ih e whole Cons by (simp add: prepend_def Y_def)
      qed
    qed
  qed
qed

lemma hex_byte: "n < 16 \<Longrightarrow> (of_char (hex n) :: nat) = (if n < 10 then 48 + n else 87 + n)"
  by (simp add: hex_def)

lemma hex_not_newline: "n < 16 \<Longrightarrow> hex n \<noteq> newline"
proof
  assume n: "n < 16" and "hex n = newline"
  then have "(of_char (hex n) :: nat) = 10" by simp
  with hex_byte [OF n] show False by (simp split: if_splits)
qed

lemma escapeASCII_no_newline: "newline \<notin> set (escapeASCII c)"
proof -
  have "(of_char c :: nat) < 16 * 16" by simp
  then have "(of_char c :: nat) div 16 < 16" by (rule less_mult_imp_div_less)
  then have h: "hex ((of_char c :: nat) div 16) \<noteq> newline"
    "hex ((of_char c :: nat) mod 16) \<noteq> newline"
    by (simp_all add: hex_not_newline)
  from escapeASCII_cases [of c] h show ?thesis
    by (elim disjE conjE) auto
qed

lemma encodeString_no_newline: "newline \<notin> set (encodeString s)"
proof (induction s rule: length_induct)
  case (1 s)
  show ?case
  proof (cases s)
    case Nil
    then show ?thesis by (simp add: encodeString.simps)
  next
    case (Cons c cs)
    have ih: "newline \<notin> set (encodeString (drop k cs))" for k
      using "1.IH" Cons by simp
    from ih [of 0] have ih0: "newline \<notin> set (encodeString cs)" by simp
    show ?thesis
    proof (cases "(of_char c :: nat) < 0x80")
      case True
      then show ?thesis
        using Cons ih0 escapeASCII_no_newline [of c] by (simp add: encodeString.simps)
    next
      case False
      then have hi: "0x80 \<le> (of_char c :: nat)" by simp
      obtain r n where d: "DecodeRune (c # cs) = (r, n)"
        by (cases "DecodeRune (c # cs)")
      show ?thesis
      proof (cases "r = RuneError \<and> n = 1")
        case True
        then show ?thesis
          using Cons False d ih0 by (simp add: encodeString.simps)
      next
        case ok: False
        from DecodeRune_valid [OF d hi ok]
        have bytes: "\<forall>x \<in> set (take n (c # cs)). 0x80 \<le> (of_char x :: nat)"
          by blast
        have tn: "newline \<notin> set (take n (c # cs))"
        proof
          assume "newline \<in> set (take n (c # cs))"
          with bytes have "0x80 \<le> (of_char newline :: nat)" by blast
          then show False by simp
        qed
        show ?thesis
        proof (cases "r = 0x2028 \<or> r = 0x2029")
          case True
          then have "hex (r mod 16) \<noteq> newline" by (intro hex_not_newline) simp
          then show ?thesis
            using Cons False d ok True ih [of "n - 1"] by (auto simp: encodeString.simps)
        next
          case no: False
          then show ?thesis
            using Cons False d ok tn ih [of "n - 1"]
            by (auto simp: encodeString.simps simp del: take_Suc_Cons take_Cons')
        qed
      qed
    qed
  qed
qed

lemma expect_prefix [simp]: "expect lit (lit @ rest) = Some rest"
  by (induction lit) simp_all

lemma digit_char: "d < 10 \<Longrightarrow> isDigit (char_of (48 + d)) \<and> (of_char (char_of (48 + d)) :: nat) - 48 = d"
  by (simp add: isDigit_def)

lemma parseDigits_digits:
  "parseDigits acc (digits n @ rest) = parseDigits (acc * 10 ^ length (digits n) + n) rest"
proof (induction n arbitrary: acc rest rule: digits.induct)
  case (1 n)
  show ?case
  proof (cases "n < 10")
    case True
    then show ?thesis
      using digit_char [OF True] by (simp add: digits.simps [of n])
  next
    case False
    have m: "n mod 10 < 10" by simp
    have "parseDigits acc (digits n @ rest)
        = parseDigits acc (digits (n div 10) @ char_of (48 + n mod 10) # rest)"
      using False by (simp add: digits.simps [of n])
    also have "\<dots> = parseDigits (acc * 10 ^ length (digits (n div 10)) + n div 10)
        (char_of (48 + n mod 10) # rest)"
      by (rule "1.IH" [OF False])
    also have "\<dots> = parseDigits ((acc * 10 ^ length (digits (n div 10)) + n div 10) * 10 + n mod 10) rest"
      using digit_char [OF m] by simp
    also have "(acc * 10 ^ length (digits (n div 10)) + n div 10) * 10 + n mod 10
        = acc * 10 ^ length (digits n) + n"
      using False by (simp add: digits.simps [of n] algebra_simps)
    finally show ?thesis .
  qed
qed

lemma digits_head: "\<exists>d ds. digits n = d # ds \<and> isDigit d"
proof (induction n rule: digits.induct)
  case (1 n)
  show ?case
  proof (cases "n < 10")
    case True
    then show ?thesis using digit_char [OF True] by (simp add: digits.simps [of n])
  next
    case False
    with "1.IH" obtain d ds where "digits (n div 10) = d # ds" "isDigit d" by blast
    with False show ?thesis by (simp add: digits.simps [of n])
  qed
qed

lemma digits_no_newline: "newline \<notin> set (digits n)"
proof (induction n rule: digits.induct)
  case (1 n)
  have d: "char_of (48 + k) \<noteq> newline" if "k < 10" for k :: nat
  proof
    assume "char_of (48 + k) = newline"
    then have "(of_char (char_of (48 + k)) :: nat) = 10" by simp
    with that show False by simp
  qed
  show ?case
  proof (cases "n < 10")
    case True
    then show ?thesis using d [OF True] by (simp add: digits.simps [of n])
  next
    case False
    have "n mod 10 < 10" by simp
    with "1.IH" False d [of "n mod 10"] show ?thesis by (simp add: digits.simps [of n])
  qed
qed

lemma parseDigits_stop: "valueEnd rest \<Longrightarrow> parseDigits acc rest = (acc, rest)"
  by (auto simp: valueEnd_def isDigit_def)

lemma numberEnd_stop: "valueEnd rest \<Longrightarrow> numberEnd v rest = Some (v, rest)"
  by (auto simp: valueEnd_def numberEnd_def)

lemma decodeInt_encodeInt:
  assumes "valueEnd rest"
  shows "decodeInt (encodeInt i @ rest) = Some (i, rest)"
proof (cases "i < 0")
  case True
  obtain d ds where h: "digits (nat (- i)) = d # ds" "isDigit d"
    using digits_head by blast
  have "parseDigits 0 (digits (nat (- i)) @ rest) = (nat (- i), rest)"
    using parseDigits_digits [of 0 "nat (- i)" rest] parseDigits_stop [OF assms] by simp
  then have "parseDigits 0 (d # ds @ rest) = (nat (- i), rest)"
    using h by simp
  with True h numberEnd_stop [OF assms] show ?thesis
    by (simp add: decodeInt_def encodeInt_def del: parseDigits.simps)
next
  case False
  obtain d ds where h: "digits (nat i) = d # ds" "isDigit d"
    using digits_head by blast
  then have nm: "d \<noteq> CHR ''-''" by (auto simp: isDigit_def)
  have "parseDigits 0 (digits (nat i) @ rest) = (nat i, rest)"
    using parseDigits_digits [of 0 "nat i" rest] parseDigits_stop [OF assms] by simp
  then have "parseDigits 0 (d # ds @ rest) = (nat i, rest)"
    using h by simp
  with False h nm numberEnd_stop [OF assms] show ?thesis
    by (simp add: decodeInt_def encodeInt_def del: parseDigits.simps)
qed

lemma encodeInt_no_newline: "newline \<notin> set (encodeInt i)"
  using digits_no_newline by (simp add: encodeInt_def)

lemma decodeBool_encodeBool:
  "decodeBool (encodeBool b @ rest) = Some (b, rest)"
  by (cases b) (simp_all add: decodeBool_def encodeBool_def)

lemma decodeString_quoteString:
  "validUTF8 s \<Longrightarrow> decodeString (quoteString s @ rest) = Some (s, rest)"
  by (simp add: decodeString_def quoteString_def unquote_encodeString)

lemma valueEnd_simps [simp]: "valueEnd (CHR '','' # cs)" "valueEnd (CHR ''}'' # cs)"
  by (simp_all add: valueEnd_def)

lemma objectEnd_newline [simp]: "objectEnd (CHR ''}'' # [CHR 0x0A])"
  by (simp add: objectEnd_def isSpace_def)

lemma json_roundtrip:
  assumes "validRequest req" and "json_Marshal req = Inr b"
  shows "json_Unmarshal (b @ [CHR 0x0A]) (blank req) = (req, None)"
proof (cases req)
  case (InitRequest r)
  with assms show ?thesis
    by (auto simp: json_Marshal_def decodeInitRequest_def decodeString_quoteString
        decodeBool_encodeBool decodeInt_encodeInt)
next
  case (UploadRequest r)
  with assms show ?thesis
    by (auto simp: json_Marshal_def decodeUploadRequest_def decodeString_quoteString
        decodeInt_encodeInt)
next
  case (DownloadRequest r)
  with assms show ?thesis
    by (auto simp: json_Marshal_def decodeDownloadRequest_def decodeString_quoteString
        decodeInt_encodeInt)
next
  case (TerminateRequest r)
  with assms show ?thesis
    by (auto simp: json_Marshal_def decodeTerminateRequest_def decodeBool_encodeBool)
qed

lemma quoteString_no_newline: "CHR 0x0A \<notin> set (quoteString s)"
  using encodeString_no_newline [of s] by (simp add: quoteString_def)

lemma encodeBool_no_newline: "CHR 0x0A \<notin> set (encodeBool b)"
  by (simp add: encodeBool_def)

lemma json_Marshal_no_newline:
  assumes "json_Marshal req = Inr b"
  shows "CHR 0x0A \<notin> set b"
  using assms quoteString_no_newline encodeBool_no_newline encodeInt_no_newline
  by (cases req) (auto simp: json_Marshal_def)

subsection \<open>Runs of the JSON encoding\<close>

lemma quotedPathUpload_encoding:
  "json_Marshal quotedPathUpload
     = Inr (''{\"oid\":\"ab\",\"size\":10,\"path\":\"a'' @ [CHR 0x5C, CHR 0x22, CHR 0xC3, CHR 0xA9]
            @ ''\",\"action\":\"x\"}'')"
  by (simp add: json_Marshal_def quotedPathUpload_def latin1PathUpload_def quoteString_def encodeString.simps escapeASCII_def DecodeRune.simps encodeInt_def digits.simps RuneError_def char_of_eq_iff)

lemma latin1PathUpload_encoding:
  "json_Marshal latin1PathUpload
     = Inr (''{\"oid\":\"ab\",\"size\":10,\"path\":\"a'' @ [CHR 0x5C] @ ''ufffd\",\"action\":\"x\"}'')"
  by (simp add: json_Marshal_def quotedPathUpload_def latin1PathUpload_def quoteString_def encodeString.simps escapeASCII_def DecodeRune.simps encodeInt_def digits.simps RuneError_def char_of_eq_iff)

lemma latin1PathUpload_decoding:
  "json_Unmarshal (''{\"oid\":\"ab\",\"size\":10,\"path\":\"a'' @ [CHR 0x5C] @ ''ufffd\",\"action\":\"x\"}''
       @ [CHR 0x0A]) (blank latin1PathUpload)
     = (UploadRequest \<lparr>Oid_upload = ''ab'', Size_upload = 10,
                       Path_upload = [CHR ''a'', CHR 0xEF, CHR 0xBF, CHR 0xBD],
                       Action_upload = ''x''\<rparr>, None)"
  by (simp add: latin1PathUpload_def decodeUploadRequest_def decodeString_def unquote.simps
      getu4.simps hexValue_def EncodeRune_def decodeInt_def isDigit_def numberEnd_def
      objectEnd_def isSpace_def prepend_def simpleEscape_def char_of_eq_iff)

lemma jsonExternals_simps:
  "Marshal jsonExternals = json_Marshal" "writeErr startedProcess = None"
  "syscalls startedProcess = [Start]"
  by (simp_all add: jsonExternals_def startedProcess_def fakeProcess_def fakeExternals_def)

section \<open>The claims\<close>

text \<open>
  C1. The claim: if the init response carries an error, or sending the init request or
  receiving the response fails, \<open>WorkerStarting\<close> aborts the context and fails with
  that error. The code does so for a failed send or receive
  (\<open>WorkerStarting_failure_aborts\<close>), but it never reads \<open>initResp.Error\<close>:
  whenever the process was launched, the request was written and the first line of the
  output decodes into an init response that carries an error \<open>e\<close>,
  \<open>WorkerStarting\<close> returns the worker context with a nil error, and the process is
  neither closed nor killed.
\<close>

theorem WorkerStarting_ignores_init_error:
  assumes "cmd = ExecCommand E (path a) (args a)"
    and "stdoutPipeErr cmd = None" and "stdinPipeErr cmd = None" and "startErr cmd = None"
    and "writeErr cmd = None"
    and "Marshal E (InitRequest \<lparr>Operation = (if direction a = Download then ''download'' else ''upload''),
            Concurrent = concurrent a, ConcurrentTransfers = originalConcurrency a\<rparr>) = Inr b"
    and "bufferedOut cmd = l @ newline # rest" and "newline \<notin> set l"
    and "UnmarshalInitResponse E (l @ [newline]) \<lparr>Error_init = None\<rparr>
           = (\<lparr>Error_init = Some e\<rparr>, None)"
  shows "WorkerStarting E a workerNum =
           ((PtrWorkerContext, None),
            cmd\<lparr>bufferedOut := rest, syscalls := syscalls cmd @ [Start, Write (b @ [newline])]\<rparr>)"
proof -
  define ctx where "ctx = cmd\<lparr>syscalls := syscalls cmd @ [Start, Write (b @ [newline])]\<rparr>"
  have out: "bufferedOut ctx = l @ newline # rest"
    using assms(7) by (simp add: ctx_def)
  have r: "readResponse (Unmarshal E) [PtrInitResponse \<lparr>Error_init = None\<rparr>] ctx
      = ((0, None), [PtrInitResponse \<lparr>Error_init = Some e\<rparr>], ctx\<lparr>bufferedOut := rest\<rparr>)"
    using ReadString_line [OF out assms(8)] assms(9) by (simp add: readResponse_def)
  have "exchangeMessage E
          (InitRequest \<lparr>Operation = (if direction a = Download then ''download'' else ''upload''),
             Concurrent = concurrent a, ConcurrentTransfers = originalConcurrency a\<rparr>)
          (Some (PtrInitResponse \<lparr>Error_init = None\<rparr>))
          (cmd\<lparr>syscalls := syscalls cmd @ [Start]\<rparr>)
        = (None, Some (PtrInitResponse \<lparr>Error_init = Some e\<rparr>), ctx\<lparr>bufferedOut := rest\<rparr>)"
    using assms(5,6) r
    by (simp add: exchangeMessage_def sendMessage_def stdin_Write_def ctx_def)
  then show ?thesis
    using assms(2-4) unfolding WorkerStarting_def Let_def assms(1) [symmetric]
    by (simp add: ctx_def)
qed

theorem WorkerStarting_ignores_init_error_witness:
  "WorkerStarting (fakeExternals initErrorLine) (testagent Upload False) 0 =
     ((PtrWorkerContext, None),
      (fakeProcess None None [])\<lparr>syscalls :=
         [Start, Write (''{\"operation\":\"upload\",\"concurrent\":false,\"concurrenttransfers\":3}''
                          @ [newline])]\<rparr>)
   \<and> fakeUnmarshalInitResponse initErrorLine \<lparr>Error_init = None\<rparr>
       = (\<lparr>Error_init = Some ''unsupported operation''\<rparr>, None)"
proof -
  have c: "fakeProcess None None initErrorLine
      = ExecCommand (fakeExternals initErrorLine) (path (testagent Upload False))
          (args (testagent Upload False))"
    by (simp add: fakeExternals_def)
  have l: "stdoutPipeErr (fakeProcess None None initErrorLine) = None"
    "stdinPipeErr (fakeProcess None None initErrorLine) = None"
    "startErr (fakeProcess None None initErrorLine) = None"
    "writeErr (fakeProcess None None initErrorLine) = None"
    by (simp_all add: fakeProcess_def)
  have m: "Marshal (fakeExternals initErrorLine)
      (InitRequest \<lparr>Operation = (if direction (testagent Upload False) = Download
                                   then ''download'' else ''upload''),
         Concurrent = concurrent (testagent Upload False),
         ConcurrentTransfers = originalConcurrency (testagent Upload False)\<rparr>)
      = Inr ''{\"operation\":\"upload\",\"concurrent\":false,\"concurrenttransfers\":3}''"
    by (simp add: fakeExternals_def fakeMarshal_def testagent_def newCustomAdapter_def)
  have out: "bufferedOut (fakeProcess None None initErrorLine)
      = ''{\"error\":{\"code\":1,\"message\":\"unsupported operation\"}}'' @ newline # []"
    by (simp add: fakeProcess_def initErrorLine_def)
  have nl: "newline \<notin> set ''{\"error\":{\"code\":1,\"message\":\"unsupported operation\"}}''"
    by simp
  have u: "UnmarshalInitResponse (fakeExternals initErrorLine)
      (''{\"error\":{\"code\":1,\"message\":\"unsupported operation\"}}'' @ [newline])
      \<lparr>Error_init = None\<rparr> = (\<lparr>Error_init = Some ''unsupported operation''\<rparr>, None)"
    by (simp add: fakeExternals_def fakeUnmarshalInitResponse_def initErrorLine_def initOkLine_def)
  from WorkerStarting_ignores_init_error [OF c l m out nl u, of 0] u show ?thesis
    by (simp add: fakeProcess_def fakeExternals_def initErrorLine_def)
qed

text \<open>
  C2. The claim: after a successful \<open>readResponse\<close>, the type assertions of
  \<open>DoTransfer\<close> on the candidate list never fail. The code asserts the struct types
  \<open>customAdapterProgressResponse\<close> and \<open>customAdapterTransferResponse\<close> on
  \<open>possResps[0]\<close>, which holds a pointer: whenever the request has been sent and
  \<open>readResponse\<close> reports a decoded line (index 0 or 1), \<open>DoTransfer\<close> panics,
  having made no callback.
\<close>

theorem DoTransfer_type_assertion_panics:
  assumes "transferRequest E a t = Inr req" and "sendMessage E req p = (None, p1)"
    and "readResponse (Unmarshal E)
           [PtrProgressResponse \<lparr>Oid_progress = [], BytesSoFar = 0, BytesSinceLast = 0\<rparr>,
            PtrTransferResponse \<lparr>Oid_transfer = [], Path_transfer = [], Error_transfer = None\<rparr>]
           p1 = ((respIdx, None), possResps, p2)"
  shows "DoTransfer E a PtrWorkerContext t cb authOkFunc p = (Panicked, [], p2)"
  using assms(1,2) transferLoop_panics [OF assms(3)]
  by (simp add: DoTransfer_def)

theorem DoTransfer_type_assertion_panics_witness:
  "DoTransfer (fakeExternals []) (testagent Upload True) PtrWorkerContext abcTransfer True True
     (fakeProcess None None (progressLine1 @ completionLine))
     = (Panicked, [], abcRequested completionLine)
   \<and> DoTransfer (fakeExternals []) (testagent Upload True) PtrWorkerContext abcTransfer True True
     (fakeProcess None None terminalOnlyLine)
     = (Panicked, [], abcRequested [])"
  using DoTransfer_type_assertion_panics [OF abcUploadSent(1) abcUploadRequested
      fakeRead_progressLine1 [of completionLine], of True True True]
    DoTransfer_type_assertion_panics [OF abcUploadSent(1) abcUploadRequested
      fakeRead_terminalOnlyLine [of "[]", simplified], of True True True]
  by simp

text \<open>
  C3. The claim: for progress messages followed by one success completion,
  \<open>DoTransfer\<close> calls the progress callback once per message and the auth-success
  callback exactly once. In the code no run of \<open>DoTransfer\<close> makes any callback, and
  none returns nil: the loop is left by a read error or by the panic of the type
  assertion, before the first callback. The example is the 10 MB upload with two progress
  lines and a success completion.
\<close>

theorem DoTransfer_makes_no_callback:
  "fst (snd (DoTransfer E a ctx t cb authOkFunc p)) = []
   \<and> fst (DoTransfer E a ctx t cb authOkFunc p) \<noteq> Returned None"
  using DoTransfer_exits [of E a ctx t cb authOkFunc p] by auto

theorem DoTransfer_makes_no_callback_witness:
  "DoTransfer (fakeExternals []) (testagent Upload True) PtrWorkerContext abcTransfer True True
     (fakeProcess None None (progressLine1 @ progressLine2 @ completionLine))
     = (Panicked, [], abcRequested (progressLine2 @ completionLine))"
proof -
  have "DoTransfer (fakeExternals []) (testagent Upload True) PtrWorkerContext abcTransfer True True
     (fakeProcess None None (progressLine1 @ progressLine2 @ completionLine))
     = (Panicked, [], abcRequested (progressLine2 @ completionLine))"
    using transferLoop_panics [OF fakeRead_progressLine1]
    by (simp add: DoTransfer_def abcUploadSent(1) abcUploadRequested)
  with DoTransfer_makes_no_callback [of "fakeExternals []" "testagent Upload True" PtrWorkerContext
      abcTransfer True True "fakeProcess None None (progressLine1 @ progressLine2 @ completionLine)"]
  show ?thesis by simp
qed

text \<open>
  C4. \<open>readResponse\<close> reads one line and returns the index of the first candidate
  that decodes it without error. When the output holds no line terminator it returns
  \<open>io.EOF\<close>. Otherwise it consumes the output up to and including the first line
  terminator and nothing more; if some candidate decodes the line, the index returned
  is that of a candidate that decodes it and no candidate before it does, with a nil
  error; for two candidates that both decode the line the index is 0; and if no
  candidate decodes the line it returns the error \<open>NoMatchingResponse\<close> for that
  line, which is a returned error of its own kind and not the error of a transfer
  response.
\<close>

theorem readResponse_first_match:
  assumes "readResponse unmarshal possResps p = ((i, err), possResps', p')"
  shows "(newline \<notin> set (bufferedOut p) \<longrightarrow> i = 0 \<and> err = Some EOF)
    \<and> (newline \<in> set (bufferedOut p) \<longrightarrow>
         (\<exists>line. line = takeWhile (\<lambda>c. c \<noteq> newline) (bufferedOut p) @ [newline]
            \<and> bufferedOut p = line @ bufferedOut p'
            \<and> ((\<exists>j < length possResps. snd (unmarshal line (possResps ! j)) = None) \<longrightarrow>
                  err = None \<and> i < length possResps
                  \<and> snd (unmarshal line (possResps ! i)) = None
                  \<and> (\<forall>j < i. snd (unmarshal line (possResps ! j)) \<noteq> None))
            \<and> ((\<forall>j < length possResps. snd (unmarshal line (possResps ! j)) \<noteq> None) \<longrightarrow>
                  i = 0 \<and> err = Some (NoMatchingResponse line))
            \<and> (\<forall>progress completion.
                  possResps = [progress, completion]
                  \<and> snd (unmarshal line progress) = None
                  \<and> snd (unmarshal line completion) = None \<longrightarrow> i = 0 \<and> err = None)))"
proof (cases "newline \<in> set (bufferedOut p)")
  case False
  with assms show ?thesis
    by (auto simp: readResponse_def ReadString_def)
next
  case True
  define line where "line = takeWhile (\<lambda>c. c \<noteq> newline) (bufferedOut p) @ [newline]"
  define q where "q = p\<lparr>bufferedOut := tl (dropWhile (\<lambda>c. c \<noteq> newline) (bufferedOut p))\<rparr>"
  from ReadString_found [OF True] have rs: "ReadString newline p = ((line, None), q)"
    and split: "bufferedOut p = line @ bufferedOut q"
    by (simp_all add: line_def q_def)
  obtain found rs' where f: "firstUnmarshalled unmarshal line 0 possResps = (found, rs')"
    by (cases "firstUnmarshalled unmarshal line 0 possResps")
  have p': "p' = q"
    using assms rs f by (cases found) (simp_all add: readResponse_def)
  have main: "((\<exists>j < length possResps. snd (unmarshal line (possResps ! j)) = None) \<longrightarrow>
                  err = None \<and> i < length possResps
                  \<and> snd (unmarshal line (possResps ! i)) = None
                  \<and> (\<forall>j < i. snd (unmarshal line (possResps ! j)) \<noteq> None))
            \<and> ((\<forall>j < length possResps. snd (unmarshal line (possResps ! j)) \<noteq> None) \<longrightarrow>
                  i = 0 \<and> err = Some (NoMatchingResponse line))"
  proof (cases found)
    case None
    with assms rs f have "i = 0" "err = Some (NoMatchingResponse line)"
      by (simp_all add: readResponse_def)
    moreover from firstUnmarshalled_none f None
    have "\<forall>j < length possResps. snd (unmarshal line (possResps ! j)) \<noteq> None"
      by blast
    ultimately show ?thesis by blast
  next
    case (Some k)
    with assms rs f have ik: "i = k" "err = None"
      by (simp_all add: readResponse_def)
    from firstUnmarshalled_found [of unmarshal line 0 possResps k rs'] f Some
    have "k < length possResps" "snd (unmarshal line (possResps ! k)) = None"
      "\<forall>j < k. snd (unmarshal line (possResps ! j)) \<noteq> None"
      by simp_all
    with ik show ?thesis by blast
  qed
  have pair: "\<forall>progress completion.
                  possResps = [progress, completion]
                  \<and> snd (unmarshal line progress) = None
                  \<and> snd (unmarshal line completion) = None \<longrightarrow> i = 0 \<and> err = None"
  proof (intro allI impI)
    fix progress completion
    assume a: "possResps = [progress, completion]
                  \<and> snd (unmarshal line progress) = None
                  \<and> snd (unmarshal line completion) = None"
    then have "\<exists>j < length possResps. snd (unmarshal line (possResps ! j)) = None"
      by (intro exI [of _ 0]) simp
    with main have e: "err = None" and m: "\<forall>j < i. snd (unmarshal line (possResps ! j)) \<noteq> None"
      by blast+
    have "i = 0"
    proof (rule ccontr)
      assume "i \<noteq> 0"
      then have "0 < i" by simp
      with m have "snd (unmarshal line (possResps ! 0)) \<noteq> None" by blast
      with a show False by simp
    qed
    with e show "i = 0 \<and> err = None" by simp
  qed
  from True split p' main pair show ?thesis
    unfolding line_def by blast
qed

theorem readResponse_first_match_witness:
  "readResponse (Unmarshal (fakeExternals []))
      [PtrProgressResponse \<lparr>Oid_progress = [], BytesSoFar = 0, BytesSinceLast = 0\<rparr>,
       PtrTransferResponse \<lparr>Oid_transfer = [], Path_transfer = [], Error_transfer = None\<rparr>]
      (fakeProcess None None (completionLine @ progressLine1))
    = ((0, None),
       [PtrProgressResponse \<lparr>Oid_progress = ''abc'', BytesSoFar = 0, BytesSinceLast = 0\<rparr>,
        PtrTransferResponse \<lparr>Oid_transfer = [], Path_transfer = [], Error_transfer = None\<rparr>],
       fakeProcess None None progressLine1)
   \<and> newline \<in> set (completionLine @ progressLine1)
   \<and> snd (fakeUnmarshalProgressResponse completionLine
        \<lparr>Oid_progress = [], BytesSoFar = 0, BytesSinceLast = 0\<rparr>) = None
   \<and> snd (fakeUnmarshalTransferResponse completionLine
        \<lparr>Oid_transfer = [], Path_transfer = [], Error_transfer = None\<rparr>) = None
   \<and> completionLine = takeWhile (\<lambda>c. c \<noteq> newline) (completionLine @ progressLine1) @ [newline]"
proof -
  have run: "readResponse (Unmarshal (fakeExternals []))
      [PtrProgressResponse \<lparr>Oid_progress = [], BytesSoFar = 0, BytesSinceLast = 0\<rparr>,
       PtrTransferResponse \<lparr>Oid_transfer = [], Path_transfer = [], Error_transfer = None\<rparr>]
      (fakeProcess None None (completionLine @ progressLine1))
    = ((0, None),
       [PtrProgressResponse \<lparr>Oid_progress = ''abc'', BytesSoFar = 0, BytesSinceLast = 0\<rparr>,
        PtrTransferResponse \<lparr>Oid_transfer = [], Path_transfer = [], Error_transfer = None\<rparr>],
       fakeProcess None None progressLine1)"
    by (simp add: readResponse_def ReadString_def fakeProcess_def fakeExternals_def
        fakeUnmarshalProgressResponse_def completionLine_def progressLine1_def progressLine2_def)
  from readResponse_first_match [OF run] run show ?thesis
    by (simp add: fakeProcess_def fakeUnmarshalProgressResponse_def
        fakeUnmarshalTransferResponse_def completionLine_def progressLine1_def progressLine2_def)
qed

text \<open>
  C5. The claim: a progress or terminal response whose oid differs from the requested
  oid makes \<open>DoTransfer\<close> fail with a protocol-violation error. In the code the type
  assertion comes before the comparison of the oids: when the response read carries
  another oid, \<open>DoTransfer\<close> panics and does not return the error
  \<open>UnexpectedOid\<close>.
\<close>

theorem DoTransfer_oid_mismatch_panics:
  assumes "transferRequest E a t = Inr req" and "sendMessage E req p = (None, p1)"
    and "readResponse (Unmarshal E)
           [PtrProgressResponse \<lparr>Oid_progress = [], BytesSoFar = 0, BytesSinceLast = 0\<rparr>,
            PtrTransferResponse \<lparr>Oid_transfer = [], Path_transfer = [], Error_transfer = None\<rparr>]
           p1 = ((respIdx, None), [PtrProgressResponse prog, PtrTransferResponse compl], p2)"
    and "(respIdx = 0 \<and> Oid_progress prog \<noteq> Oid (Object t))
         \<or> (respIdx = 1 \<and> Oid_transfer compl \<noteq> Oid (Object t))"
  shows "DoTransfer E a PtrWorkerContext t cb authOkFunc p = (Panicked, [], p2)
    \<and> fst (DoTransfer E a PtrWorkerContext t cb authOkFunc p)
        \<noteq> Returned (Some (UnexpectedOid (Oid_progress prog) (Oid (Object t))))
    \<and> fst (DoTransfer E a PtrWorkerContext t cb authOkFunc p)
        \<noteq> Returned (Some (UnexpectedOid (Oid_transfer compl) (Oid (Object t))))"
  using assms(1,2) transferLoop_panics [OF assms(3)]
  by (simp add: DoTransfer_def)

theorem DoTransfer_oid_mismatch_panics_witness:
  "DoTransfer (fakeExternals []) (testagent Upload True) PtrWorkerContext abcTransfer True True
     (fakeProcess None None strayCompletionLine)
     = (Panicked, [], abcRequested [])
   \<and> ''xyz'' \<noteq> Oid (Object abcTransfer)"
proof -
  have ne: "(0 = (0::nat) \<and> Oid_progress \<lparr>Oid_progress = ''xyz'', BytesSoFar = 0, BytesSinceLast = 0\<rparr>
        \<noteq> Oid (Object abcTransfer))
      \<or> (0 = (1::nat) \<and> Oid_transfer \<lparr>Oid_transfer = [], Path_transfer = [], Error_transfer = None\<rparr>
        \<noteq> Oid (Object abcTransfer))"
    by (simp add: abcTransfer_def)
  from DoTransfer_oid_mismatch_panics [OF abcUploadSent(1) abcUploadRequested
      fakeRead_strayCompletionLine [of "[]", simplified] ne, of True True True]
  show ?thesis
    by (simp add: abcTransfer_def)
qed

text \<open>
  C6. \<open>Begin\<close> hands to the worker pool a worker count of exactly 1 when the
  adapter's \<open>concurrent\<close> flag is false, and the requested count unchanged when the
  flag is true, for every requested count. The worker pool (\<open>adapterBase.Begin\<close>) is
  a parameter: the theorem holds for every one.
\<close>

theorem Begin_effective_concurrency:
  "(\<not> concurrent a \<longrightarrow>
      fst (Begin adapterBase_Begin a N) = adapterBase_Begin (a\<lparr>originalConcurrency := N\<rparr>) 1)
   \<and> (concurrent a \<longrightarrow>
      fst (Begin adapterBase_Begin a N) = adapterBase_Begin (a\<lparr>originalConcurrency := N\<rparr>) N)"
  by (simp add: Begin_def Let_def)

theorem Begin_effective_concurrency_witness:
  "\<not> concurrent (testagent Upload False)
   \<and> fst (Begin (\<lambda>a n. n) (testagent Upload False) 4) = 1
   \<and> concurrent (testagent Upload True)
   \<and> fst (Begin (\<lambda>a n. n) (testagent Upload True) 4) = 4"
  using Begin_effective_concurrency [of "testagent Upload False" "\<lambda>a n. n" 4]
    Begin_effective_concurrency [of "testagent Upload True" "\<lambda>a n. n" 4]
  by (simp add: testagent_def newCustomAdapter_def)

text \<open>
  C7. The claim: in the Upload direction a successful completion calls the verification
  exactly once; a failed completion and the Download direction never call it. In the
  code \<open>api.VerifyUpload\<close> is never called, in either direction: the statement after
  the loop is reached only when \<open>complete\<close> has been set, and the type assertion
  before that assignment panics. The example is an upload answered by a success
  completion.
\<close>

theorem DoTransfer_never_verifies:
  "VerifyUploadCall obj \<notin> set (fst (snd (DoTransfer E a ctx t cb authOkFunc p)))"
  using DoTransfer_exits [of E a ctx t cb authOkFunc p] by auto

theorem DoTransfer_never_verifies_witness:
  "DoTransfer (fakeExternals []) (testagent Upload True) PtrWorkerContext abcTransfer True True
     (fakeProcess None None completionLine)
     = (Panicked, [], abcRequested [])
   \<and> VerifyUploadCall (Object abcTransfer) \<notin> set (fst (snd
       (DoTransfer (fakeExternals []) (testagent Upload True) PtrWorkerContext abcTransfer True True
          (fakeProcess None None completionLine))))"
proof -
  have "DoTransfer (fakeExternals []) (testagent Upload True) PtrWorkerContext abcTransfer True True
     (fakeProcess None None completionLine)
     = (Panicked, [], abcRequested [])"
    using transferLoop_panics [OF fakeRead_completionLine [of "[]", simplified]]
    by (simp add: DoTransfer_def abcUploadSent(1) abcUploadRequested)
  with DoTransfer_never_verifies [of "Object abcTransfer" "fakeExternals []" "testagent Upload True"
      PtrWorkerContext abcTransfer True True "fakeProcess None None completionLine"]
  show ?thesis by simp
qed

text \<open>
  C8. The claim: \<open>WorkerEnding\<close> first attempts the graceful shutdown (send the
  terminate request, close both pipes, wait for the exit) and falls back to the forced
  abort whenever any part of that fails. It fails where a pipe cannot be closed:
  \<open>shutdownWorkerProcess\<close> discards what the two \<open>Close\<close> calls return, so a
  failed close is no failure of the shutdown and no abort follows (the counterexample
  after the witness). As amended: given a worker's
  context, \<open>WorkerEnding\<close> falls back to the abort exactly when the terminate
  request cannot be encoded or written or the wait for the exit reports an error; what
  the \<open>Close\<close> calls (and \<open>Kill\<close>) return is ignored, in the shutdown as in the
  abort. The operations on the process are, in order: the write of the encoded
  \<open>TerminateRequest{complete: true}\<close> and a line terminator; when the request cannot
  be encoded or written, the abort (close stdin, close stdout, kill); otherwise close
  stdin, close stdout and wait, and, when the wait reports an error, the abort after
  that. The error of the shutdown is the error of the encoder, of the write or of the
  wait. \<open>WorkerEnding\<close> returns no error: its only result is the state of the
  process. (For a context that is nil or of another type it does nothing.)
\<close>

theorem WorkerEnding_graceful_then_abort:
  "WorkerEnding E a workerNum PtrWorkerContext p =
     p\<lparr>syscalls := syscalls p @
        (case Marshal E (TerminateRequest \<lparr>Complete = True\<rparr>) of
           Inl err \<Rightarrow> [CloseStdin, CloseStdout, Kill]
         | Inr b \<Rightarrow>
             (case writeErr p of
                Some err \<Rightarrow> [WriteFailed (b @ [newline]), CloseStdin, CloseStdout, Kill]
              | None \<Rightarrow>
                  (case waitErr p of
                     None \<Rightarrow> [Write (b @ [newline]), CloseStdin, CloseStdout, Wait]
                   | Some err \<Rightarrow> [Write (b @ [newline]), CloseStdin, CloseStdout, Wait,
                                  CloseStdin, CloseStdout, Kill])))\<rparr>
   \<and> fst (shutdownWorkerProcess E p) =
       (case Marshal E (TerminateRequest \<lparr>Complete = True\<rparr>) of
          Inl err \<Rightarrow> Some err
        | Inr b \<Rightarrow> (case writeErr p of Some err \<Rightarrow> Some err | None \<Rightarrow> waitErr p))"
  by (simp add: WorkerEnding_def shutdownWorkerProcess_def exchangeMessage_def sendMessage_def
      stdin_Write_def abortWorkerProcess_def stdin_Close_def stdout_Close_def cmd_Wait_def
      Process_Kill_def Let_def split: sum.splits option.splits)

theorem WorkerEnding_graceful_then_abort_witness:
  "syscalls (WorkerEnding (fakeExternals []) (testagent Upload True) 0 PtrWorkerContext
       (fakeProcess None None [])) =
     [Write (''{\"complete\":true}'' @ [newline]), CloseStdin, CloseStdout, Wait]
   \<and> syscalls (WorkerEnding (fakeExternals []) (testagent Upload True) 0 PtrWorkerContext
       (fakeProcess None (Some (IOError ''exit status 1'')) [])) =
     [Write (''{\"complete\":true}'' @ [newline]), CloseStdin, CloseStdout, Wait,
      CloseStdin, CloseStdout, Kill]
   \<and> syscalls (WorkerEnding (fakeExternals []) (testagent Upload True) 0 PtrWorkerContext
       (fakeProcess (Some (IOError ''broken pipe'')) None [])) =
     [WriteFailed (''{\"complete\":true}'' @ [newline]), CloseStdin, CloseStdout, Kill]
   \<and> fst (shutdownWorkerProcess (fakeExternals [])
       (fakeProcess None (Some (IOError ''exit status 1'')) [])) = Some (IOError ''exit status 1'')"
  using WorkerEnding_graceful_then_abort [of "fakeExternals []" "testagent Upload True" 0
      "fakeProcess None None []"]
    WorkerEnding_graceful_then_abort [of "fakeExternals []" "testagent Upload True" 0
      "fakeProcess None (Some (IOError ''exit status 1'')) []"]
    WorkerEnding_graceful_then_abort [of "fakeExternals []" "testagent Upload True" 0
      "fakeProcess (Some (IOError ''broken pipe'')) None []"]
  by (simp add: fakeExternals_def fakeProcess_def fakeMarshal_def)

text \<open>
  A process whose two \<open>Close\<close> calls fail, while the write and the wait succeed:
  \<open>WorkerEnding\<close> closes, waits and stops there. The shutdown reports no error and
  the process is not killed.
\<close>

theorem WorkerEnding_close_failure_counterexample:
  "stdinCloseErr closeFailingProcess = Some (IOError ''close |1: file already closed'')
   \<and> stdoutCloseErr closeFailingProcess = Some (IOError ''close |0: file already closed'')
   \<and> syscalls (WorkerEnding (fakeExternals []) (testagent Upload True) 0 PtrWorkerContext
         closeFailingProcess)
       = [Write (''{\"complete\":true}'' @ [newline]), CloseStdin, CloseStdout, Wait]
   \<and> Kill \<notin> set (syscalls (WorkerEnding (fakeExternals []) (testagent Upload True) 0
         PtrWorkerContext closeFailingProcess))
   \<and> fst (shutdownWorkerProcess (fakeExternals []) closeFailingProcess) = None"
  by (simp add: closeFailingProcess_def WorkerEnding_def shutdownWorkerProcess_def
      exchangeMessage_def sendMessage_def stdin_Write_def stdin_Close_def stdout_Close_def
      cmd_Wait_def fakeExternals_def fakeMarshal_def fakeProcess_def Let_def)

text \<open>
  C9. The claim: for any request, \<open>sendMessage\<close> writes one JSON record ended by a
  single line terminator, and decoding that line reproduces the request. The first half
  holds for every request; the second fails for a request with a string that is not
  valid UTF-8, which \<open>json.Marshal\<close> coerces (the counterexample after the
  witness). As amended: with the JSON encoder as
  the library, on every process that accepts the write, \<open>sendMessage\<close> makes a
  single write, of the encoding of the request and one line terminator, the encoding
  itself holding none; a loopback double of the process then holds exactly that line;
  and for every request whose strings are valid UTF-8, \<open>readResponse\<close> against the
  request's schema reads the whole line, leaves nothing behind and returns the original
  request.
\<close>

theorem sendMessage_roundtrip:
  assumes "Marshal E = json_Marshal" and "writeErr p = None"
  shows "\<exists>b. json_Marshal req = Inr b \<and> CHR 0x0A \<notin> set b
    \<and> sendMessage E req p = (None, p\<lparr>syscalls := syscalls p @ [Write (b @ [CHR 0x0A])]\<rparr>)
    \<and> bufferedOut (loopback p (snd (sendMessage E req p))) = b @ [CHR 0x0A]
    \<and> (validRequest req \<longrightarrow>
         readResponse json_Unmarshal [blank req] (loopback p (snd (sendMessage E req p)))
           = ((0, None), [req], (loopback p (snd (sendMessage E req p)))\<lparr>bufferedOut := []\<rparr>))"
proof -
  obtain b where m: "json_Marshal req = Inr b"
    by (simp add: json_Marshal_def)
  have nl: "CHR 0x0A \<notin> set b"
    by (rule json_Marshal_no_newline [OF m])
  have s: "sendMessage E req p = (None, p\<lparr>syscalls := syscalls p @ [Write (b @ [CHR 0x0A])]\<rparr>)"
    using assms m by (simp add: sendMessage_def stdin_Write_def)
  define q where "q = loopback p (snd (sendMessage E req p))"
  have out: "bufferedOut q = b @ CHR 0x0A # []"
    using s by (simp add: q_def loopback_def written_def)
  have rd: "ReadString (CHR 0x0A) q = ((b @ [CHR 0x0A], None), q\<lparr>bufferedOut := []\<rparr>)"
    by (rule ReadString_line [OF out nl])
  have "readResponse json_Unmarshal [blank req] q = ((0, None), [req], q\<lparr>bufferedOut := []\<rparr>)"
    if "validRequest req"
    using rd json_roundtrip [OF that m] by (simp add: readResponse_def)
  with m nl s out show ?thesis
    unfolding q_def by auto
qed

theorem sendMessage_roundtrip_witness:
  "Marshal jsonExternals = json_Marshal \<and> writeErr startedProcess = None
   \<and> validRequest quotedPathUpload
   \<and> sendMessage jsonExternals quotedPathUpload startedProcess
       = (None, startedProcess\<lparr>syscalls :=
            [Start, Write (''{\"oid\":\"ab\",\"size\":10,\"path\":\"a''
                           @ [CHR 0x5C, CHR 0x22, CHR 0xC3, CHR 0xA9]
                           @ ''\",\"action\":\"x\"}'' @ [CHR 0x0A])]\<rparr>)
   \<and> fst (snd (readResponse json_Unmarshal [blank quotedPathUpload]
        (loopback startedProcess
           (snd (sendMessage jsonExternals quotedPathUpload startedProcess)))))
       = [quotedPathUpload]"
proof -
  have v: "validRequest quotedPathUpload"
    by (simp add: quotedPathUpload_def validUTF8.simps DecodeRune.simps RuneError_def)
  from sendMessage_roundtrip [OF jsonExternals_simps(1,2), of quotedPathUpload]
  obtain b where b: "json_Marshal quotedPathUpload = Inr b"
    and s: "sendMessage jsonExternals quotedPathUpload startedProcess
        = (None, startedProcess\<lparr>syscalls := syscalls startedProcess @ [Write (b @ [CHR 0x0A])]\<rparr>)"
    and r: "validRequest quotedPathUpload \<longrightarrow>
         readResponse json_Unmarshal [blank quotedPathUpload]
           (loopback startedProcess (snd (sendMessage jsonExternals quotedPathUpload startedProcess)))
           = ((0, None), [quotedPathUpload],
              (loopback startedProcess
                 (snd (sendMessage jsonExternals quotedPathUpload startedProcess)))\<lparr>bufferedOut := []\<rparr>)"
    by blast
  from b have b': "b = ''{\"oid\":\"ab\",\"size\":10,\"path\":\"a''
                           @ [CHR 0x5C, CHR 0x22, CHR 0xC3, CHR 0xA9]
                           @ ''\",\"action\":\"x\"}''"
    by (simp add: quotedPathUpload_encoding)
  from r v have "fst (snd (readResponse json_Unmarshal [blank quotedPathUpload]
        (loopback startedProcess
           (snd (sendMessage jsonExternals quotedPathUpload startedProcess)))))
       = [quotedPathUpload]"
    by simp
  with v s b' jsonExternals_simps show ?thesis
    by simp
qed

text \<open>
  The upload request whose path holds the byte 0xE9 is written with \<open>\ufffd\<close> in
  its place; read back from the loopback double it decodes without error into a request
  whose path holds the three bytes of U+FFFD, which is not the request sent.
\<close>

theorem sendMessage_roundtrip_counterexample:
  "readResponse json_Unmarshal [blank latin1PathUpload]
     (loopback startedProcess (snd (sendMessage jsonExternals latin1PathUpload startedProcess)))
   = ((0, None),
      [UploadRequest \<lparr>Oid_upload = ''ab'', Size_upload = 10,
                       Path_upload = [CHR ''a'', CHR 0xEF, CHR 0xBF, CHR 0xBD],
                       Action_upload = ''x''\<rparr>],
      startedProcess\<lparr>bufferedOut := [],
        syscalls := [Start, Write (''{\"oid\":\"ab\",\"size\":10,\"path\":\"a'' @ [CHR 0x5C]
                                   @ ''ufffd\",\"action\":\"x\"}'' @ [CHR 0x0A])]\<rparr>)
   \<and> UploadRequest \<lparr>Oid_upload = ''ab'', Size_upload = 10,
                       Path_upload = [CHR ''a'', CHR 0xEF, CHR 0xBF, CHR 0xBD],
                       Action_upload = ''x''\<rparr> \<noteq> latin1PathUpload"
proof -
  define line where "line = ''{\"oid\":\"ab\",\"size\":10,\"path\":\"a'' @ [CHR 0x5C]
                                   @ ''ufffd\",\"action\":\"x\"}''"
  have s: "sendMessage jsonExternals latin1PathUpload startedProcess
      = (None, startedProcess\<lparr>syscalls := [Start, Write (line @ [CHR 0x0A])]\<rparr>)"
    unfolding line_def
    by (simp add: sendMessage_def stdin_Write_def jsonExternals_simps latin1PathUpload_encoding)
  define q where "q = loopback startedProcess
      (snd (sendMessage jsonExternals latin1PathUpload startedProcess))"
  have q: "q = startedProcess\<lparr>bufferedOut := line @ [CHR 0x0A],
      syscalls := [Start, Write (line @ [CHR 0x0A])]\<rparr>"
    unfolding q_def s by (simp add: loopback_def written_def jsonExternals_simps)
  have out: "bufferedOut q = line @ CHR 0x0A # []" by (simp add: q)
  have nl: "CHR 0x0A \<notin> set line" by (simp add: line_def)
  have u: "json_Unmarshal (line @ [CHR 0x0A]) (blank latin1PathUpload)
     = (UploadRequest \<lparr>Oid_upload = ''ab'', Size_upload = 10,
                       Path_upload = [CHR ''a'', CHR 0xEF, CHR 0xBF, CHR 0xBD],
                       Action_upload = ''x''\<rparr>, None)"
    unfolding line_def using latin1PathUpload_decoding by simp
  have "readResponse json_Unmarshal [blank latin1PathUpload] q
      = ((0, None),
         [UploadRequest \<lparr>Oid_upload = ''ab'', Size_upload = 10,
                       Path_upload = [CHR ''a'', CHR 0xEF, CHR 0xBF, CHR 0xBD],
                       Action_upload = ''x''\<rparr>], q\<lparr>bufferedOut := []\<rparr>)"
    using ReadString_line [OF out nl] u by (simp add: readResponse_def)
  moreover have "q\<lparr>bufferedOut := []\<rparr> = startedProcess\<lparr>bufferedOut := [],
        syscalls := [Start, Write (line @ [CHR 0x0A])]\<rparr>"
    by (simp add: q)
  ultimately show ?thesis
    unfolding q_def line_def by (simp add: latin1PathUpload_def)
qed

text \<open>
  C10. The init request sent at worker start carries, as \<open>concurrenttransfers\<close>,
  the count \<open>Begin\<close> was called with, whatever the \<open>concurrent\<close> flag (and so
  not the downgraded count of 1), and the flag itself as \<open>concurrent\<close>; for an
  adapter as the constructor built it, the count is 3. Once the process is launched and
  the write succeeds, the first write to the process's input is the encoding of that
  request, followed by a line terminator.
\<close>

theorem InitRequest_reports_original_concurrency:
  assumes "cmd = ExecCommand E (path a) (args a)"
    and "stdoutPipeErr cmd = None" and "stdinPipeErr cmd = None" and "startErr cmd = None"
    and "writeErr cmd = None"
    and "op = (if direction a = Download then ''download'' else ''upload'')"
    and "Marshal E (InitRequest \<lparr>Operation = op, Concurrent = concurrent a,
            ConcurrentTransfers = N\<rparr>) = Inr b"
    and "Marshal E (InitRequest \<lparr>Operation = op, Concurrent = concurrent a,
            ConcurrentTransfers = 3\<rparr>) = Inr b3"
  shows "(\<exists>rest. syscalls (snd (WorkerStarting E (snd (Begin adapterBase_Begin a N)) workerNum))
            = syscalls cmd @ Start # Write (b @ [newline]) # rest)
    \<and> (a = newCustomAdapter (name a) (direction a) (path a) (args a) (concurrent a) \<longrightarrow>
         (\<exists>rest. syscalls (snd (WorkerStarting E a workerNum))
            = syscalls cmd @ Start # Write (b3 @ [newline]) # rest))"
proof -
  define a' where "a' = snd (Begin adapterBase_Begin a N)"
  have a': "a' = a\<lparr>originalConcurrency := N\<rparr>"
    by (simp add: a'_def Begin_def Let_def)
  have "\<exists>rest. syscalls (snd (WorkerStarting E a' workerNum))
            = syscalls cmd @ Start # Write (b @ [newline]) # rest"
    by (rule WorkerStarting_sends) (use assms a' in simp_all)
  moreover have "\<exists>rest. syscalls (snd (WorkerStarting E a workerNum))
            = syscalls cmd @ Start # Write (b3 @ [newline]) # rest"
    if n: "a = newCustomAdapter (name a) (direction a) (path a) (args a) (concurrent a)"
  proof -
    have "originalConcurrency (newCustomAdapter (name a) (direction a) (path a) (args a) (concurrent a)) = 3"
      by (simp add: newCustomAdapter_def)
    with n have "originalConcurrency a = 3" by simp
    then show ?thesis
      by (intro WorkerStarting_sends) (use assms in simp_all)
  qed
  ultimately show ?thesis
    by (simp add: a'_def)
qed

theorem InitRequest_reports_original_concurrency_witness:
  "(\<exists>rest. syscalls (snd (WorkerStarting (fakeExternals initOkLine)
        (snd (Begin (\<lambda>a n. n) (testagent Upload False) 4)) 0))
      = Start # Write (''{\"operation\":\"upload\",\"concurrent\":false,\"concurrenttransfers\":4}''
                        @ [newline]) # rest)
   \<and> (\<exists>rest. syscalls (snd (WorkerStarting (fakeExternals initOkLine) (testagent Upload False) 0))
      = Start # Write (''{\"operation\":\"upload\",\"concurrent\":false,\"concurrenttransfers\":3}''
                        @ [newline]) # rest)
   \<and> fst (Begin (\<lambda>a n. n) (testagent Upload False) 4) = 1"
proof -
  have c: "fakeProcess None None initOkLine
      = ExecCommand (fakeExternals initOkLine) (path (testagent Upload False))
          (args (testagent Upload False))"
    by (simp add: fakeExternals_def)
  have l: "stdoutPipeErr (fakeProcess None None initOkLine) = None"
    "stdinPipeErr (fakeProcess None None initOkLine) = None"
    "startErr (fakeProcess None None initOkLine) = None"
    "writeErr (fakeProcess None None initOkLine) = None"
    by (simp_all add: fakeProcess_def)
  have o: "''upload'' = (if direction (testagent Upload False) = Download then ''download'' else ''upload'')"
    by (simp add: testagent_def newCustomAdapter_def)
  have m4: "Marshal (fakeExternals initOkLine)
      (InitRequest \<lparr>Operation = ''upload'', Concurrent = concurrent (testagent Upload False),
         ConcurrentTransfers = 4\<rparr>)
      = Inr ''{\"operation\":\"upload\",\"concurrent\":false,\"concurrenttransfers\":4}''"
    by (simp add: fakeExternals_def fakeMarshal_def testagent_def newCustomAdapter_def)
  have m3: "Marshal (fakeExternals initOkLine)
      (InitRequest \<lparr>Operation = ''upload'', Concurrent = concurrent (testagent Upload False),
         ConcurrentTransfers = 3\<rparr>)
      = Inr ''{\"operation\":\"upload\",\"concurrent\":false,\"concurrenttransfers\":3}''"
    by (simp add: fakeExternals_def fakeMarshal_def testagent_def newCustomAdapter_def)
  have n: "testagent Upload False
      = newCustomAdapter (name (testagent Upload False)) (direction (testagent Upload False))
          (path (testagent Upload False)) (args (testagent Upload False))
          (concurrent (testagent Upload False))"
    by (simp add: testagent_def newCustomAdapter_def)
  have s: "syscalls (fakeProcess None None initOkLine) = []"
    by (simp add: fakeProcess_def)
  have b: "fst (Begin (\<lambda>a n. n) (testagent Upload False) 4) = (1::int)"
    by (simp add: Begin_def Let_def testagent_def newCustomAdapter_def)
  from InitRequest_reports_original_concurrency [OF c l o m4 m3, of "\<lambda>a n. n" 0] n s b
  show ?thesis
    by simp
qed

end
